theory Spec2Isabelle
  imports Main
begin

section \<open>JavaScript values used by the gateway\<close>

text \<open>
  Strings are \<^typ>\<open>string\<close>. A value that may be \<^verbatim>\<open>undefined\<close> is an
  \<^typ>\<open>'a option\<close>. The gateway tests strings for truthiness
  (\<^verbatim>\<open>if (!authHeader)\<close>, \<^verbatim>\<open>a || b\<close>): \<^verbatim>\<open>undefined\<close> and the empty
  string are falsy, every other string is truthy.
\<close>

fun truthy :: "string option \<Rightarrow> bool" where
  "truthy None = False"
| "truthy (Some s) = (s \<noteq> [])"

text \<open>\<^verbatim>\<open>a || b\<close> on possibly undefined strings.\<close>

definition js_or :: "string option \<Rightarrow> string option \<Rightarrow> string option" where
  "js_or a b = (if truthy a then a else b)"

text \<open>\<^verbatim>\<open>s.startsWith(p)\<close>.\<close>

definition startsWith :: "string \<Rightarrow> string \<Rightarrow> bool" where
  "startsWith s p = (take (length p) s = p)"

text \<open>
  \<^verbatim>\<open>s.replace(pat, rep)\<close> with a string pattern: the first occurrence of
  \<^verbatim>\<open>pat\<close> in \<^verbatim>\<open>s\<close>, scanning from the left, is replaced; a string without
  an occurrence is returned as it is. (The replacement the gateway passes is the empty
  string, which has no \<^verbatim>\<open>$\<close> patterns.)
\<close>

fun js_replace :: "string \<Rightarrow> string \<Rightarrow> string \<Rightarrow> string" where
  "js_replace [] pat rep = (if pat = [] then rep else [])"
| "js_replace (c # cs) pat rep =
     (if startsWith (c # cs) pat then rep @ drop (length pat) (c # cs)
      else c # js_replace cs pat rep)"

text \<open>
  A JavaScript \<^verbatim>\<open>Map\<close> keeps its keys in insertion order, and the registry
  reads that order (\<^verbatim>\<open>Array.from(this.services.keys())\<close>), so a \<^verbatim>\<open>Map\<close> is
  an association list here: \<^verbatim>\<open>set\<close> overwrites the value of a key that is
  present, in place, and appends a new key at the end.
\<close>

fun map_set :: "'k \<Rightarrow> 'v \<Rightarrow> ('k \<times> 'v) list \<Rightarrow> ('k \<times> 'v) list" where
  "map_set k v [] = [(k, v)]"
| "map_set k v ((k', v') # kvs) =
     (if k' = k then (k, v) # kvs else (k', v') # map_set k v kvs)"

definition map_get :: "('k \<times> 'v) list \<Rightarrow> 'k \<Rightarrow> 'v option" where
  "map_get kvs k = map_of kvs k"

definition map_keys :: "('k \<times> 'v) list \<Rightarrow> 'k list" where
  "map_keys kvs = map fst kvs"

definition map_values :: "('k \<times> 'v) list \<Rightarrow> 'v list" where
  "map_values kvs = map snd kvs"

section \<open>Types of the gateway (types/index.ts)\<close>

text \<open>
  Optional fields (\<^verbatim>\<open>timeout?\<close>, \<^verbatim>\<open>retries?\<close>, \<^verbatim>\<open>stripPrefix?\<close>,
  \<^verbatim>\<open>authRequired?\<close>, \<^verbatim>\<open>responseTime?\<close>, \<^verbatim>\<open>error?\<close>) are options, except
  the two flags, which the code only tests for truthiness: an absent flag is
  \<^term>\<open>False\<close>. Times are milliseconds, as integers.
\<close>

record ServiceConfig =
  name :: string
  url :: string
  healthCheck :: string
  timeout :: "nat option"
  retries :: "nat option"

record RouteMapping =
  prefix :: string
  serviceName :: string
  stripPrefix :: bool
  authRequired :: bool

datatype health = Healthy | Unhealthy | Unknown

record HealthStatus =
  service :: string
  status :: health
  responseTime :: "int option"
  lastCheck :: int
  error :: "string option"

section \<open>Configuration (config/services.ts)\<close>

text \<open>The service list, with the URLs used when the environment overrides none.\<close>

definition SERVICES :: "ServiceConfig list" where
  "SERVICES =
    [\<lparr>name = ''auth-service'', url = ''http://localhost:3000'', healthCheck = ''/health'',
       timeout = Some 5000, retries = Some 3\<rparr>,
     \<lparr>name = ''product-service'', url = ''http://localhost:3000'', healthCheck = ''/health'',
       timeout = Some 5000, retries = Some 3\<rparr>,
     \<lparr>name = ''order-service'', url = ''http://localhost:3000'', healthCheck = ''/health'',
       timeout = Some 5000, retries = Some 3\<rparr>,
     \<lparr>name = ''recommendation-service'', url = ''http://localhost:3000'',
       healthCheck = ''/health'', timeout = Some 10000, retries = Some 2\<rparr>]"

definition ROUTE_MAPPINGS :: "RouteMapping list" where
  "ROUTE_MAPPINGS =
    [\<lparr>prefix = ''/api/auth'', serviceName = ''auth-service'',
       stripPrefix = False, authRequired = False\<rparr>,
     \<lparr>prefix = ''/api/products'', serviceName = ''product-service'',
       stripPrefix = False, authRequired = False\<rparr>,
     \<lparr>prefix = ''/api/orders'', serviceName = ''order-service'',
       stripPrefix = False, authRequired = True\<rparr>,
     \<lparr>prefix = ''/api/recommendations'', serviceName = ''recommendation-service'',
       stripPrefix = False, authRequired = False\<rparr>]"

text \<open>\<^verbatim>\<open>GATEWAY_CONFIG.rateLimit\<close> and \<^verbatim>\<open>GATEWAY_CONFIG.healthCheckInterval\<close>.\<close>

definition rateLimit_windowMs :: int where
  "rateLimit_windowMs = 15 * 60 * 1000"

definition rateLimit_max :: int where
  "rateLimit_max = 100"

definition healthCheckInterval_ms :: nat where
  "healthCheckInterval_ms = 30000"

section \<open>Outbound HTTP calls (axios)\<close>

text \<open>
  What the network does with one outbound call: the upstream answers with an HTTP
  response, or the call fails below HTTP with an error code and a message
  (\<^verbatim>\<open>ECONNREFUSED\<close>, \<^verbatim>\<open>ETIMEDOUT\<close>, \<^verbatim>\<open>ECONNABORTED\<close>, ...).
\<close>

record AxiosResponse =
  resp_status :: nat
  resp_data :: string
  resp_headers :: "(string \<times> string) list"

record AxiosError =
  code :: "string option"
  message :: string
  response :: "AxiosResponse option"

datatype upstream = Reply AxiosResponse | NetworkError string string

text \<open>
  The axios library is not part of the repository; its contract is taken as follows.
  A call resolves with the response when \<^verbatim>\<open>validateStatus(status)\<close> holds and
  rejects with an error that carries the response otherwise; a failure below HTTP
  rejects with an error that carries the code and no response.
\<close>

definition axios :: "(nat \<Rightarrow> bool) \<Rightarrow> upstream \<Rightarrow> AxiosError + AxiosResponse" where
  "axios validateStatus u =
     (case u of
        Reply r \<Rightarrow>
          if validateStatus (resp_status r) then Inr r
          else Inl \<lparr>code = (if 400 \<le> resp_status r \<and> resp_status r < 500 then Some ''ERR_BAD_REQUEST''
                            else if 500 \<le> resp_status r \<and> resp_status r < 600 then Some ''ERR_BAD_RESPONSE''
                            else None),
                    message = ''Request failed with status code'',
                    response = Some r\<rparr>
      | NetworkError c m \<Rightarrow> Inl \<lparr>code = Some c, message = m, response = None\<rparr>)"

section \<open>Timers of the runtime\<close>

text \<open>
  \<^verbatim>\<open>setInterval\<close> registers a recurring timer and returns its handle;
  \<^verbatim>\<open>clearInterval\<close> cancels the timer with that handle. The runtime is the list
  of handles of the recurring timers that are live, and the next fresh handle.
\<close>

record Runtime =
  intervals :: "nat list"
  nextHandle :: nat

definition setInterval :: "Runtime \<Rightarrow> nat \<times> Runtime" where
  "setInterval rt =
     (nextHandle rt, \<lparr>intervals = intervals rt @ [nextHandle rt], nextHandle = Suc (nextHandle rt)\<rparr>)"

definition clearInterval :: "nat \<Rightarrow> Runtime \<Rightarrow> Runtime" where
  "clearInterval h rt = rt\<lparr>intervals := removeAll h (intervals rt)\<rparr>"

section \<open>Service registry (services/serviceRegistry.ts)\<close>

record ServiceRegistry =
  services :: "(string \<times> ServiceConfig) list"
  healthStatuses :: "(string \<times> HealthStatus) list"
  healthCheckInterval :: "nat option"

text \<open>
  The world a probe runs in: what a GET of a URL meets, the time at which the probe
  starts, and how long the call to a URL takes to settle.
\<close>

record World =
  fetch :: "string \<Rightarrow> upstream"
  clock :: int
  latency :: "string \<Rightarrow> int"

text \<open>
  \<^verbatim>\<open>initializeServices\<close>: the \<^verbatim>\<open>forEach\<close> over the configured services, each
  one stored under its name with a health record of status unknown.
\<close>

fun registerEach :: "int \<Rightarrow> ServiceRegistry \<Rightarrow> ServiceConfig list \<Rightarrow> ServiceRegistry" where
  "registerEach now reg [] = reg"
| "registerEach now reg (s # ss) =
     registerEach now
       (reg\<lparr>services := map_set (name s) s (services reg),
            healthStatuses :=
              map_set (name s)
                \<lparr>service = name s, status = Unknown, responseTime = None,
                 lastCheck = now, error = None\<rparr>
                (healthStatuses reg)\<rparr>)
       ss"

definition initializeServices :: "int \<Rightarrow> ServiceConfig list \<Rightarrow> ServiceRegistry" where
  "initializeServices now cfg =
     registerEach now \<lparr>services = [], healthStatuses = [], healthCheckInterval = None\<rparr> cfg"

definition getService :: "ServiceRegistry \<Rightarrow> string \<Rightarrow> ServiceConfig option" where
  "getService reg serviceName' = map_get (services reg) serviceName'"

definition getServiceByRoute ::
  "RouteMapping list \<Rightarrow> ServiceRegistry \<Rightarrow> string \<Rightarrow> ServiceConfig option" where
  "getServiceByRoute routes reg routePath =
     (case find (\<lambda>mapping. startsWith routePath (prefix mapping)) routes of
        None \<Rightarrow> None
      | Some mapping \<Rightarrow> map_get (services reg) (serviceName mapping))"

text \<open>
  \<^verbatim>\<open>checkServiceHealth\<close>: one probe. An unregistered name returns a record and
  writes nothing. Otherwise the health endpoint is called with
  \<^verbatim>\<open>validateStatus: status === 200\<close>; the record of the outcome is stored under
  the name and returned, and no error leaves the function. (The timeout of the call
  decides nothing here: a call that times out is a call that the world fails.)
\<close>

definition checkServiceHealth ::
  "World \<Rightarrow> ServiceRegistry \<Rightarrow> string \<Rightarrow> HealthStatus \<times> ServiceRegistry" where
  "checkServiceHealth w reg serviceName' =
     (case map_get (services reg) serviceName' of
        None \<Rightarrow>
          (\<lparr>service = serviceName', status = Unknown, responseTime = None,
            lastCheck = clock w, error = Some ''Service not found in registry''\<rparr>, reg)
      | Some svc \<Rightarrow>
          (let target = url svc @ healthCheck svc in
           case axios (\<lambda>st. st = 200) (fetch w target) of
             Inr _ \<Rightarrow>
               (let healthStatus =
                      \<lparr>service = serviceName', status = Healthy,
                       responseTime = Some (latency w target),
                       lastCheck = clock w + latency w target, error = None\<rparr>
                in (healthStatus,
                    reg\<lparr>healthStatuses := map_set serviceName' healthStatus (healthStatuses reg)\<rparr>))
           | Inl err \<Rightarrow>
               (let healthStatus =
                      \<lparr>service = serviceName', status = Unhealthy, responseTime = None,
                       lastCheck = clock w + latency w target, error = Some (message err)\<rparr>
                in (healthStatus,
                    reg\<lparr>healthStatuses := map_set serviceName' healthStatus (healthStatuses reg)\<rparr>))))"

text \<open>
  \<^verbatim>\<open>checkAllServicesHealth\<close>: one probe per key of the service map, and
  \<^verbatim>\<open>Promise.all\<close> over the promises. \<^verbatim>\<open>Promise.all\<close> resolves, once every
  promise has settled, with the values in the order of the array it was given. The
  probes write their records as they complete: \<open>completion\<close> is the order in which
  they do (a rearrangement of the key list).
\<close>

fun writeEach :: "World \<Rightarrow> ServiceRegistry \<Rightarrow> string list \<Rightarrow> ServiceRegistry" where
  "writeEach w reg [] = reg"
| "writeEach w reg (n # ns) = writeEach w (snd (checkServiceHealth w reg n)) ns"

definition checkAllServicesHealth ::
  "World \<Rightarrow> string list \<Rightarrow> ServiceRegistry \<Rightarrow> HealthStatus list \<times> ServiceRegistry" where
  "checkAllServicesHealth w completion reg =
     (map (\<lambda>serviceName'. fst (checkServiceHealth w reg serviceName')) (map_keys (services reg)),
      writeEach w reg completion)"

definition getHealthStatus :: "ServiceRegistry \<Rightarrow> string \<Rightarrow> HealthStatus option" where
  "getHealthStatus reg serviceName' = map_get (healthStatuses reg) serviceName'"

definition getAllHealthStatuses :: "ServiceRegistry \<Rightarrow> HealthStatus list" where
  "getAllHealthStatuses reg = map_values (healthStatuses reg)"

definition isServiceHealthy :: "ServiceRegistry \<Rightarrow> string \<Rightarrow> bool" where
  "isServiceHealthy reg serviceName' =
     (case map_get (healthStatuses reg) serviceName' of
        None \<Rightarrow> False
      | Some s \<Rightarrow> status s = Healthy)"

definition getServiceNames :: "ServiceRegistry \<Rightarrow> string list" where
  "getServiceNames reg = map_keys (services reg)"

text \<open>
  The registry together with the runtime's timers. \<^verbatim>\<open>startHealthChecks\<close> starts
  one round of probes (whose records are written here at once), then sets a recurring
  timer and stores its handle;
  \<^verbatim>\<open>stopHealthChecks\<close> clears the timer of the stored handle, when there is one,
  and leaves the handle stored.
\<close>

record Gateway =
  registry :: ServiceRegistry
  runtime :: Runtime

definition startHealthChecks :: "World \<Rightarrow> string list \<Rightarrow> Gateway \<Rightarrow> Gateway" where
  "startHealthChecks w completion g =
     (let reg1 = snd (checkAllServicesHealth w completion (registry g));
          (h, rt1) = setInterval (runtime g)
      in \<lparr>registry = reg1\<lparr>healthCheckInterval := Some h\<rparr>, runtime = rt1\<rparr>)"

definition stopHealthChecks :: "Gateway \<Rightarrow> Gateway" where
  "stopHealthChecks g =
     (case healthCheckInterval (registry g) of
        None \<Rightarrow> g
      | Some h \<Rightarrow> g\<lparr>runtime := clearInterval h (runtime g)\<rparr>)"

text \<open>A recurring timer that fires runs one round of probes.\<close>

definition timerFires :: "World \<Rightarrow> string list \<Rightarrow> Gateway \<Rightarrow> Gateway" where
  "timerFires w completion g =
     g\<lparr>registry := snd (checkAllServicesHealth w completion (registry g))\<rparr>"

text \<open>The operations on a running registry, and a run of them from a state.\<close>

datatype registry_op =
    CheckService World string
  | CheckAll World "string list"
  | Start World "string list"
  | Stop
  | Tick World "string list"

fun apply_op :: "Gateway \<Rightarrow> registry_op \<Rightarrow> Gateway" where
  "apply_op g (CheckService w n) = g\<lparr>registry := snd (checkServiceHealth w (registry g) n)\<rparr>"
| "apply_op g (CheckAll w c) = g\<lparr>registry := snd (checkAllServicesHealth w c (registry g))\<rparr>"
| "apply_op g (Start w c) = startHealthChecks w c g"
| "apply_op g Stop = stopHealthChecks g"
| "apply_op g (Tick w c) = timerFires w c g"

fun run_ops :: "Gateway \<Rightarrow> registry_op list \<Rightarrow> Gateway" where
  "run_ops g [] = g"
| "run_ops g (x # xs) = run_ops (apply_op g x) xs"

definition newGateway :: "int \<Rightarrow> ServiceConfig list \<Rightarrow> Gateway" where
  "newGateway now cfg =
     \<lparr>registry = initializeServices now cfg, runtime = \<lparr>intervals = [], nextHandle = 0\<rparr>\<rparr>"

section \<open>Status endpoints (utils/healthCheck.ts)\<close>

text \<open>
  \<^verbatim>\<open>GET /ready\<close>: one round of probes, then 200 when at least one record is
  healthy and 503 otherwise. The handler's \<^verbatim>\<open>catch\<close> answers 503 when the round
  rejects; \<^verbatim>\<open>checkServiceHealth\<close> catches every error of its probe, so the round
  never does. The timestamp of the body is left out.
\<close>

record ReadyResponse =
  ready_code :: nat
  ready_status :: string
  ready_total :: nat
  ready_healthy :: nat
  ready_unhealthy :: nat
  ready_details :: "HealthStatus list"

definition ready :: "World \<Rightarrow> string list \<Rightarrow> ServiceRegistry \<Rightarrow> ReadyResponse \<times> ServiceRegistry" where
  "ready w completion reg =
     (let (healthStatuses', reg') = checkAllServicesHealth w completion reg;
          healthy = length (filter (\<lambda>s. status s = Healthy) healthStatuses');
          unhealthy = length (filter (\<lambda>s. status s = Unhealthy) healthStatuses');
          total = length healthStatuses';
          isReady = (healthy > 0)
      in (\<lparr>ready_code = (if isReady then 200 else 503),
           ready_status = (if isReady then ''ready'' else ''not ready''),
           ready_total = total, ready_healthy = healthy, ready_unhealthy = unhealthy,
           ready_details = healthStatuses'\<rparr>, reg'))"

text \<open>
  A service fails its probe when the GET of its health endpoint is not answered with
  HTTP 200: the connection fails, the call times out, or the answer has another status.
\<close>

definition probeFails :: "World \<Rightarrow> ServiceConfig \<Rightarrow> bool" where
  "probeFails w svc =
     (case fetch w (url svc @ healthCheck svc) of
        Reply r \<Rightarrow> resp_status r \<noteq> 200
      | NetworkError c m \<Rightarrow> True)"

section \<open>Requests and responses (express)\<close>

text \<open>
  The parts of an express request that the middlewares read or write. Node stores the
  names of inbound headers in lower case. \<open>path\<close> is \<^verbatim>\<open>req.path\<close> as a
  middleware reads it (express leaves the mount point of the middleware out of it).
  \<^verbatim>\<open>user\<close> is the object that the auth
  middleware attaches, \<^verbatim>\<open>remoteAddress\<close> is \<^verbatim>\<open>req.socket.remoteAddress\<close>.
  The field \<^verbatim>\<open>id\<close> of a token's payload is called \<open>uid\<close> here, and the
  request's HTTP verb is called \<open>httpMethod\<close>.

  The auth middleware casts the result of \<^verbatim>\<open>jwt.verify\<close> to \<^verbatim>\<open>JWTPayload\<close>
  without a check, so a verified payload may lack \<^verbatim>\<open>id\<close> or \<^verbatim>\<open>email\<close> (the
  backend signs \<^verbatim>\<open>{userId, email}\<close>): both fields are options, \<open>None\<close> for
  \<^verbatim>\<open>undefined\<close>. A header that is assigned \<^verbatim>\<open>undefined\<close> is a header that is
  not there: a read of it is falsy and an outbound call does not send it.
\<close>

record JWTPayload =
  uid :: "string option"
  email :: "string option"

record Request =
  path :: string
  httpMethod :: string
  body :: string
  headers :: "string \<Rightarrow> string option"
  user :: "JWTPayload option"
  remoteAddress :: "string option"

text \<open>
  A response of the gateway: the status, the body, and the header assignments made by
  the handler that sends it, in order. A JSON body \<^verbatim>\<open>{error, message}\<close> is
  \<open>Json\<close>, the body of a rate-limit rejection with its \<^verbatim>\<open>retryAfter\<close> is
  \<open>JsonRetry\<close>, and upstream data sent on as it came is \<open>Data\<close>.
\<close>

datatype ResponseBody =
    Json string string
  | JsonRetry string string int
  | Data string

record Response =
  res_status :: nat
  res_body :: ResponseBody
  res_headers :: "(string \<times> string) list"

text \<open>A middleware either calls \<^verbatim>\<open>next()\<close> with the request as it left it, or answers.\<close>

datatype handled = Next Request | Respond Response

section \<open>Auth gate (middleware/auth.ts)\<close>

text \<open>
  \<^verbatim>\<open>jwt.verify(token, secret)\<close> belongs to a library: it is a parameter. It returns
  the payload of the token or throws an error, of which the middleware reads the
  \<^verbatim>\<open>name\<close> (\<^verbatim>\<open>TokenExpiredError\<close>, \<^verbatim>\<open>JsonWebTokenError\<close>, or another).
\<close>

datatype verified = Decoded JWTPayload | Throws string

definition authenticateRequest :: "(string \<Rightarrow> verified) \<Rightarrow> Request \<Rightarrow> handled" where
  "authenticateRequest verify req =
     (let authHeader = headers req ''authorization'' in
      if \<not> truthy authHeader then
        Respond \<lparr>res_status = 401,
                 res_body = Json ''Unauthorized'' ''No authorization token provided'',
                 res_headers = []\<rparr>
      else if \<not> startsWith (the authHeader) ''Bearer '' then
        Respond \<lparr>res_status = 401,
                 res_body = Json ''Unauthorized''
                   ''Invalid authorization format. Expected: Bearer <token>'',
                 res_headers = []\<rparr>
      else
        (let token = drop 7 (the authHeader) in
         if token = [] then
           Respond \<lparr>res_status = 401, res_body = Json ''Unauthorized'' ''No token provided'',
                    res_headers = []\<rparr>
         else
           (case verify token of
              Decoded decoded \<Rightarrow>
                Next (req\<lparr>user := Some \<lparr>uid = uid decoded, email = email decoded\<rparr>,
                          headers := (headers req)
                            (''x-user-id'' := uid decoded, ''x-user-email'' := email decoded)\<rparr>)
            | Throws errName \<Rightarrow>
                if errName = ''TokenExpiredError'' then
                  Respond \<lparr>res_status = 401,
                           res_body = Json ''Token expired''
                             ''Your session has expired. Please login again.'',
                           res_headers = []\<rparr>
                else if errName = ''JsonWebTokenError'' then
                  Respond \<lparr>res_status = 401,
                           res_body = Json ''Invalid token'' ''Authentication token is invalid'',
                           res_headers = []\<rparr>
                else
                  Respond \<lparr>res_status = 500,
                           res_body = Json ''Authentication error'' ''Could not authenticate request'',
                           res_headers = []\<rparr>)))"

definition optionalAuth :: "(string \<Rightarrow> verified) \<Rightarrow> Request \<Rightarrow> handled" where
  "optionalAuth verify req =
     (let authHeader = headers req ''authorization'' in
      if \<not> truthy authHeader \<or> \<not> startsWith (the authHeader) ''Bearer '' then Next req
      else
        (let token = drop 7 (the authHeader) in
         case verify token of
           Decoded decoded \<Rightarrow>
             Next (req\<lparr>user := Some \<lparr>uid = uid decoded, email = email decoded\<rparr>,
                       headers := (headers req)
                         (''x-user-id'' := uid decoded, ''x-user-email'' := email decoded)\<rparr>)
         | Throws errName \<Rightarrow> Next req))"

definition conditionalAuth ::
  "(string \<Rightarrow> verified) \<Rightarrow> RouteMapping list \<Rightarrow> Request \<Rightarrow> handled" where
  "conditionalAuth verify routes req =
     (case find (\<lambda>m. startsWith (path req) (prefix m)) routes of
        Some mapping \<Rightarrow>
          if authRequired mapping then authenticateRequest verify req
          else optionalAuth verify req
      | None \<Rightarrow> optionalAuth verify req)"

section \<open>Rate limiter (middleware/rateLimiter.ts)\<close>

record RateLimitEntry =
  count :: int
  resetTime :: int

text \<open>\<^verbatim>\<open>a || d\<close> where \<^verbatim>\<open>d\<close> is a string literal.\<close>

definition js_or_str :: "string option \<Rightarrow> string \<Rightarrow> string" where
  "js_or_str a d = (case a of None \<Rightarrow> d | Some s \<Rightarrow> if s \<noteq> [] then s else d)"

definition getClientIdentifier :: "Request \<Rightarrow> string" where
  "getClientIdentifier req =
     (let userId = headers req ''x-user-id'' in
      if truthy userId then ''user:'' @ the userId
      else
        (let ip = js_or_str (js_or (headers req ''x-forwarded-for'') (remoteAddress req)) ''unknown''
         in ''ip:'' @ ip))"

text \<open>
  What a limiter does with one request: the store it leaves, the three headers it sets
  on the response (\<^verbatim>\<open>X-RateLimit-Limit\<close>, \<^verbatim>\<open>X-RateLimit-Remaining\<close>,
  \<^verbatim>\<open>X-RateLimit-Reset\<close>, as numbers, before they are printed), and whether it calls
  \<^verbatim>\<open>next()\<close> or answers 429.
\<close>

record Limited =
  store :: "string \<Rightarrow> RateLimitEntry option"
  hdr_limit :: int
  hdr_remaining :: int
  hdr_reset :: int
  rejection :: "Response option"

text \<open>
  \<^verbatim>\<open>Math.ceil(d / 1000)\<close> for an integer number \<^verbatim>\<open>d\<close> of milliseconds. (The
  quotient of a timestamp difference by 1000 is far from the range in which a double
  would round across an integer.)
\<close>

definition ceilDiv1000 :: "int \<Rightarrow> int" where
  "ceilDiv1000 d = - ((- d) div 1000)"

text \<open>
  \<^verbatim>\<open>createRateLimiter(windowMs, max)\<close> returns a middleware over a store of its own.
  The entry is an object held by the store, so \<^verbatim>\<open>entry.count++\<close> changes the
  stored entry. \<^verbatim>\<open>max\<close> is written \<open>max'\<close>.
\<close>

definition createRateLimiter ::
  "int \<Rightarrow> int \<Rightarrow> (string \<Rightarrow> RateLimitEntry option) \<Rightarrow> int \<Rightarrow> Request \<Rightarrow> Limited" where
  "createRateLimiter windowMs max' store0 now req =
     (let clientId = getClientIdentifier req;
          entry0 = (case store0 clientId of
                      None \<Rightarrow> \<lparr>count = 0, resetTime = now + windowMs\<rparr>
                    | Some e \<Rightarrow> if now > resetTime e then \<lparr>count = 0, resetTime = now + windowMs\<rparr>
                                else e);
          entry = entry0\<lparr>count := count entry0 + 1\<rparr>;
          remaining = max 0 (max' - count entry)
      in \<lparr>store = store0(clientId \<mapsto> entry),
          hdr_limit = max', hdr_remaining = remaining, hdr_reset = resetTime entry,
          rejection =
            (if count entry > max' then
               Some \<lparr>res_status = 429,
                     res_body = JsonRetry ''Too many requests'' ''Rate limit exceeded''
                                  (ceilDiv1000 (resetTime entry - now)),
                     res_headers = []\<rparr>
             else None)\<rparr>)"

text \<open>
  \<^verbatim>\<open>rateLimiter\<close>, the global instance, over the module's store, with the window and
  the maximum of \<^verbatim>\<open>GATEWAY_CONFIG\<close>; its message prints both.
\<close>

definition rateLimiter ::
  "(string \<Rightarrow> RateLimitEntry option) \<Rightarrow> int \<Rightarrow> Request \<Rightarrow> Limited" where
  "rateLimiter rateLimitStore now req =
     (let clientId = getClientIdentifier req;
          entry0 = (case rateLimitStore clientId of
                      None \<Rightarrow> \<lparr>count = 0, resetTime = now + rateLimit_windowMs\<rparr>
                    | Some e \<Rightarrow> if now > resetTime e
                                then \<lparr>count = 0, resetTime = now + rateLimit_windowMs\<rparr>
                                else e);
          entry = entry0\<lparr>count := count entry0 + 1\<rparr>;
          remaining = max 0 (rateLimit_max - count entry)
      in \<lparr>store = rateLimitStore(clientId \<mapsto> entry),
          hdr_limit = rateLimit_max, hdr_remaining = remaining, hdr_reset = resetTime entry,
          rejection =
            (if count entry > rateLimit_max then
               Some \<lparr>res_status = 429,
                     res_body = JsonRetry ''Too many requests''
                                  ''You have exceeded the rate limit of 100 requests per 900s''
                                  (ceilDiv1000 (resetTime entry - now)),
                     res_headers = []\<rparr>
             else None)\<rparr>)"

text \<open>The sweep that runs every minute deletes the entries whose window is over.\<close>

definition sweep :: "int \<Rightarrow> (string \<Rightarrow> RateLimitEntry option) \<Rightarrow> (string \<Rightarrow> RateLimitEntry option)" where
  "sweep now rateLimitStore =
     (\<lambda>key. case rateLimitStore key of
               None \<Rightarrow> None
             | Some entry \<Rightarrow> if now > resetTime entry then None else Some entry)"

text \<open>
  A limiter serving requests one after the other, each at its time, every one on the
  store that the one before left.
\<close>

fun limitEach ::
  "int \<Rightarrow> int \<Rightarrow> (string \<Rightarrow> RateLimitEntry option) \<Rightarrow> (int \<times> Request) list \<Rightarrow> Limited list" where
  "limitEach windowMs max' store0 [] = []"
| "limitEach windowMs max' store0 ((now, req) # rest) =
     (let r = createRateLimiter windowMs max' store0 now req
      in r # limitEach windowMs max' (store r) rest)"

section \<open>Proxy forwarder (middleware/proxy.ts)\<close>

text \<open>The configuration of one outbound call, and what a forward does: calls and waits.\<close>

record AxiosRequestConfig =
  cfg_method :: string
  cfg_url :: string
  cfg_data :: string
  cfg_headers :: "string \<Rightarrow> string option"
  cfg_timeout :: nat
  cfg_maxRedirects :: nat

datatype event = Sent AxiosRequestConfig | Slept nat

text \<open>
  The header object of the outbound call: every inbound header, \<^verbatim>\<open>host\<close> set to
  \<^verbatim>\<open>undefined\<close>, and the two forwarding headers. A header whose value is
  \<^verbatim>\<open>undefined\<close> is not sent.
\<close>

definition outboundHeaders :: "(string \<Rightarrow> string option) \<Rightarrow> (string \<Rightarrow> string option)" where
  "outboundHeaders headers' =
     headers'
       (''host'' := None,
        ''X-Forwarded-For'' := js_or (headers' ''x-forwarded-for'') (headers' ''x-real-ip''),
        ''X-Forwarded-Proto'' := Some (js_or_str (headers' ''x-forwarded-proto'') ''http''))"

text \<open>
  The result of a forward: the response it returns or the value it throws (\<open>None\<close>
  is \<^verbatim>\<open>null\<close>, the initial \<^verbatim>\<open>lastError\<close>), and the calls and waits it made.
\<close>

record Forwarded =
  outcome :: "AxiosError option + AxiosResponse"
  events :: "event list"

text \<open>
  The retry loop of \<^verbatim>\<open>forwardRequest\<close> from attempt number \<open>attempt\<close> on.
  \<open>call k\<close> is how the \<open>k\<close>-th \<^verbatim>\<open>await axios(config)\<close> settles.
\<close>

function attemptFrom ::
  "(nat \<Rightarrow> AxiosError + AxiosResponse) \<Rightarrow> AxiosRequestConfig \<Rightarrow> nat \<Rightarrow> nat
     \<Rightarrow> AxiosError option \<Rightarrow> Forwarded" where
  "attemptFrom call config retries' attempt lastError =
     (if attempt \<le> retries' then
        (case call attempt of
           Inr response' \<Rightarrow> \<lparr>outcome = Inr response', events = [Sent config]\<rparr>
         | Inl error' \<Rightarrow>
             if (case response error' of
                   None \<Rightarrow> False
                 | Some r \<Rightarrow> resp_status r \<ge> 400 \<and> resp_status r < 500)
             then \<lparr>outcome = Inl (Some error'), events = [Sent config]\<rparr>
             else
               (let rest = attemptFrom call config retries' (Suc attempt) (Some error')
                in rest\<lparr>events :=
                          Sent config
                          # (if attempt < retries' then [Slept (2 ^ attempt * 100)] else [])
                          @ events rest\<rparr>))
      else \<lparr>outcome = Inl lastError, events = []\<rparr>)"
  by pat_completeness auto
termination
  by (relation "measure (\<lambda>(call, config, retries', attempt, lastError). Suc retries' - attempt)") auto

text \<open>
  \<^verbatim>\<open>forwardRequest\<close>. \<open>backend k\<close> is what the \<open>k\<close>-th outbound call meets. The
  options default to a timeout of 5000 and 3 retries; every call is made with
  \<^verbatim>\<open>validateStatus: () => true\<close>, and the loop starts at attempt 1 with no error.
\<close>

definition forwardRequest ::
  "(nat \<Rightarrow> upstream) \<Rightarrow> string \<Rightarrow> string \<Rightarrow> string \<Rightarrow> string \<Rightarrow> (string \<Rightarrow> string option)
     \<Rightarrow> nat option \<Rightarrow> nat option \<Rightarrow> Forwarded" where
  "forwardRequest backend targetUrl httpMethod' path' body' headers' timeout' retries' =
     (let config = \<lparr>cfg_method = httpMethod', cfg_url = targetUrl @ path', cfg_data = body',
                     cfg_headers = outboundHeaders headers',
                     cfg_timeout = (case timeout' of None \<Rightarrow> 5000 | Some t \<Rightarrow> t),
                     cfg_maxRedirects = 5\<rparr>
      in attemptFrom (\<lambda>attempt. axios (\<lambda>st. True) (backend attempt)) config
           (case retries' of None \<Rightarrow> 3 | Some n \<Rightarrow> n) 1 None)"

text \<open>
  Route resolution, the first part of \<^verbatim>\<open>proxyRequest\<close>: the first mapping whose
  prefix the path starts with, the service registered under its name, and the path to
  call the service with.
\<close>

datatype resolution =
    RouteNotFound
  | ServiceNotRegistered string
  | Resolved RouteMapping ServiceConfig string

definition resolve :: "RouteMapping list \<Rightarrow> ServiceRegistry \<Rightarrow> string \<Rightarrow> resolution" where
  "resolve routes reg path' =
     (case find (\<lambda>m. startsWith path' (prefix m)) routes of
        None \<Rightarrow> RouteNotFound
      | Some mapping \<Rightarrow>
          (case getService reg (serviceName mapping) of
             None \<Rightarrow> ServiceNotRegistered (serviceName mapping)
           | Some service' \<Rightarrow>
               Resolved mapping service'
                 (if stripPrefix mapping then
                    (let targetPath = js_replace path' (prefix mapping) [] in
                     if \<not> startsWith targetPath ''/'' then ''/'' @ targetPath else targetPath)
                  else path')))"

text \<open>\<^verbatim>\<open>key.toLowerCase()\<close> on a header name.\<close>

definition toLowerCase :: "string \<Rightarrow> string" where
  "toLowerCase s =
     map (\<lambda>c. let n = (of_char c :: nat) in if 65 \<le> n \<and> n \<le> 90 then char_of (n + 32) else c) s"

text \<open>
  What \<^verbatim>\<open>proxyRequest\<close> reads besides the request: the backend, the printed
  duration of the forward, and the id that \<^verbatim>\<open>generateRequestId\<close> would return.
\<close>

record ProxyWorld =
  backend :: "nat \<Rightarrow> upstream"
  duration :: string
  generatedId :: string

text \<open>
  The \<^verbatim>\<open>catch\<close> block of \<^verbatim>\<open>proxyRequest\<close>, which answers for the value
  that the forward threw. It reads \<^verbatim>\<open>error.message\<close> first; when the value thrown
  is \<^verbatim>\<open>null\<close> that read throws in turn and the handler sends no answer:
  \<open>None\<close>.
\<close>

definition proxyCatch :: "AxiosError option \<Rightarrow> Response option" where
  "proxyCatch thrown =
     (case thrown of
        None \<Rightarrow> None
      | Some error' \<Rightarrow>
          Some
            (if code error' = Some ''ECONNREFUSED'' then
               \<lparr>res_status = 503,
                res_body = Json ''Service unavailable'' ''Could not connect to service'',
                res_headers = []\<rparr>
             else if code error' = Some ''ETIMEDOUT'' \<or> code error' = Some ''ECONNABORTED'' then
               \<lparr>res_status = 504,
                res_body = Json ''Gateway timeout'' ''Service took too long to respond'',
                res_headers = []\<rparr>
             else
               (case response error' of
                  Some r \<Rightarrow>
                    \<lparr>res_status = resp_status r, res_body = Data (resp_data r),
                     res_headers = []\<rparr>
                | None \<Rightarrow>
                    \<lparr>res_status = 500,
                     res_body = Json ''Internal gateway error'' (message error'),
                     res_headers = []\<rparr>)))"

text \<open>The answer of \<^verbatim>\<open>proxyRequest\<close> and the outbound calls and waits it made.\<close>

record Proxied =
  answer :: "Response option"
  outbound :: "event list"

definition proxyRequest ::
  "RouteMapping list \<Rightarrow> ServiceRegistry \<Rightarrow> ProxyWorld \<Rightarrow> Request \<Rightarrow> Proxied" where
  "proxyRequest routes reg pw req =
     (case resolve routes reg (path req) of
        RouteNotFound \<Rightarrow>
          \<lparr>answer = Some \<lparr>res_status = 404,
                           res_body = Json ''Route not found''
                                        (''No service configured for path: '' @ path req),
                           res_headers = []\<rparr>,
           outbound = []\<rparr>
      | ServiceNotRegistered serviceName' \<Rightarrow>
          \<lparr>answer = Some \<lparr>res_status = 503,
                           res_body = Json ''Service unavailable''
                                        (''Service '' @ serviceName' @ '' not found in registry''),
                           res_headers = []\<rparr>,
           outbound = []\<rparr>
      | Resolved mapping service' targetPath \<Rightarrow>
          (let fwd = forwardRequest (backend pw) (url service') (httpMethod req) targetPath
                       (body req) (headers req) (timeout service') (retries service')
           in case outcome fwd of
                Inr response' \<Rightarrow>
                  \<lparr>answer = Some
                     \<lparr>res_status = resp_status response',
                      res_body = Data (resp_data response'),
                      res_headers =
                        [(''X-Gateway-Service'', serviceName mapping),
                         (''X-Response-Time'', duration pw),
                         (''X-Request-ID'', js_or_str (headers req ''x-request-id'') (generatedId pw))]
                        @ filter (\<lambda>(key, value).
                                    toLowerCase key \<notin> set [''connection'', ''keep-alive'',
                                                              ''transfer-encoding'', ''upgrade''])
                            (resp_headers response')\<rparr>,
                   outbound = events fwd\<rparr>
              | Inl thrown \<Rightarrow> \<lparr>answer = proxyCatch thrown, outbound = events fwd\<rparr>))"

section \<open>The middlewares in the order of app.ts\<close>

text \<open>
  After the status routes, \<^verbatim>\<open>app.ts\<close> installs \<^verbatim>\<open>rateLimiter\<close>, then
  \<^verbatim>\<open>conditionalAuth\<close>, then \<^verbatim>\<open>proxyRequest\<close>. A request passes through them in
  that order; \<open>path\<close> is the path as the middlewares read it. The result is the store
  of the limiter, the key the limiter counted the request under, and the answer and
  outbound calls.
\<close>

record Served =
  served_store :: "string \<Rightarrow> RateLimitEntry option"
  served_key :: string
  served :: Proxied

definition apiPipeline ::
  "(string \<Rightarrow> verified) \<Rightarrow> RouteMapping list \<Rightarrow> ServiceRegistry \<Rightarrow> ProxyWorld
     \<Rightarrow> (string \<Rightarrow> RateLimitEntry option) \<Rightarrow> int \<Rightarrow> Request \<Rightarrow> Served" where
  "apiPipeline verify routes reg pw rateLimitStore now req =
     (let limited = rateLimiter rateLimitStore now req in
      \<lparr>served_store = store limited,
       served_key = getClientIdentifier req,
       served =
         (case rejection limited of
            Some res \<Rightarrow> \<lparr>answer = Some res, outbound = []\<rparr>
          | None \<Rightarrow>
              (case conditionalAuth verify routes req of
                 Respond res \<Rightarrow> \<lparr>answer = Some res, outbound = []\<rparr>
               | Next req' \<Rightarrow> proxyRequest routes reg pw req'))\<rparr>)"

section \<open>Notions used in the statements\<close>

text \<open>The invariant of the registry: the two maps have the same keys, in the same order.\<close>

definition keys_agree :: "ServiceRegistry \<Rightarrow> bool" where
  "keys_agree reg = (map_keys (healthStatuses reg) = map_keys (services reg))"

text \<open>
  The number of outbound calls among the events of a forward; whether a rejected call's
  error carries a response with a 4xx status (the test of the retry loop); the events
  of attempts \<open>a\<close> to \<open>j\<close> when each attempt before \<open>j\<close> is followed by its
  wait of \<open>2 ^ attempt * 100\<close> ms; and the value of a header in an outbound call.
\<close>

definition attempts :: "event list \<Rightarrow> nat" where
  "attempts es = length (filter (\<lambda>e. case e of Sent c \<Rightarrow> True | Slept d \<Rightarrow> False) es)"

definition carries4xx :: "AxiosError \<Rightarrow> bool" where
  "carries4xx e = (case response e of None \<Rightarrow> False | Some r \<Rightarrow> resp_status r \<ge> 400 \<and> resp_status r < 500)"

definition schedule :: "AxiosRequestConfig \<Rightarrow> nat \<Rightarrow> nat \<Rightarrow> event list" where
  "schedule config a j = concat (map (\<lambda>k. [Sent config, Slept (2 ^ k * 100)]) [a..<j]) @ [Sent config]"

definition sentHeader :: "string \<Rightarrow> event \<Rightarrow> string option" where
  "sentHeader h ev = (case ev of Sent config \<Rightarrow> cfg_headers config h | Slept d \<Rightarrow> None)"

text \<open>
  The \<^verbatim>\<open>retryAfter\<close> of a rejection's body; and the condition under which the
  limiter creates a fresh entry: the client has no entry, or its window is over.
\<close>

definition retryAfter :: "Response \<Rightarrow> int option" where
  "retryAfter res = (case res_body res of JsonRetry e m n \<Rightarrow> Some n | _ \<Rightarrow> None)"

definition windowOver :: "(string \<Rightarrow> RateLimitEntry option) \<Rightarrow> string \<Rightarrow> int \<Rightarrow> bool" where
  "windowOver st k now = (case st k of None \<Rightarrow> True | Some e \<Rightarrow> now > resetTime e)"

text \<open>
  The identity that a successful bearer-token verification yields for a request: the
  payload of the token when the Authorization header is present, starts with
  \<open>Bearer\<close> and a space, and the rest of it verifies; nothing when the header is
  absent, malformed or fails verification. And the request as the auth gate leaves it
  after a successful verification.
\<close>

definition bearerIdentity :: "(string \<Rightarrow> verified) \<Rightarrow> Request \<Rightarrow> JWTPayload option" where
  "bearerIdentity verify req =
     (case headers req ''authorization'' of
        None \<Rightarrow> None
      | Some h \<Rightarrow>
          if h \<noteq> [] \<and> startsWith h ''Bearer '' then
            (case verify (drop 7 h) of Decoded d \<Rightarrow> Some d | Throws errName \<Rightarrow> None)
          else None)"

definition withIdentity :: "Request \<Rightarrow> JWTPayload \<Rightarrow> Request" where
  "withIdentity req d =
     req\<lparr>user := Some \<lparr>uid = uid d, email = email d\<rparr>,
         headers := (headers req)(''x-user-id'' := uid d, ''x-user-email'' := email d)\<rparr>"

section \<open>Example inputs\<close>

text \<open>Two services at different addresses, and a world in which only the first answers.\<close>

definition demo_services :: "ServiceConfig list" where
  "demo_services =
    [\<lparr>name = ''auth-service'', url = ''http://auth:3001'', healthCheck = ''/health'',
       timeout = Some 5000, retries = Some 3\<rparr>,
     \<lparr>name = ''order-service'', url = ''http://orders:3003'', healthCheck = ''/health'',
       timeout = Some 5000, retries = Some 3\<rparr>]"

definition demo_world :: World where
  "demo_world =
    \<lparr>fetch = (\<lambda>u. if u = ''http://auth:3001/health''
                     then Reply \<lparr>resp_status = 200, resp_data = ''ok'', resp_headers = []\<rparr>
                     else NetworkError ''ECONNREFUSED'' ''connect ECONNREFUSED''),
     clock = 1000,
     latency = (\<lambda>u. 7)\<rparr>"


text \<open>A route table with a stripped prefix and a route to a service that is not registered.\<close>

definition demo_routes :: "RouteMapping list" where
  "demo_routes =
    [\<lparr>prefix = ''/api/orders'', serviceName = ''order-service'',
       stripPrefix = True, authRequired = True\<rparr>,
     \<lparr>prefix = ''/api'', serviceName = ''billing-service'',
       stripPrefix = False, authRequired = False\<rparr>]"

text \<open>
  An outbound configuration, a response of a given status, and a backend that refuses
  the first two calls and answers the third.
\<close>

definition demo_config :: AxiosRequestConfig where
  "demo_config =
     \<lparr>cfg_method = ''GET'', cfg_url = ''http://localhost:3000/api/products'', cfg_data = [],
      cfg_headers = outboundHeaders (\<lambda>h. None), cfg_timeout = 5000, cfg_maxRedirects = 5\<rparr>"

definition reply :: "nat \<Rightarrow> AxiosResponse" where
  "reply st = \<lparr>resp_status = st, resp_data = ''body'', resp_headers = []\<rparr>"

definition flaky_backend :: "nat \<Rightarrow> upstream" where
  "flaky_backend k = (if k < 3 then NetworkError ''ECONNREFUSED'' ''connect ECONNREFUSED'' else Reply (reply 200))"



definition answering :: "nat \<Rightarrow> ProxyWorld" where
  "answering st = \<lparr>backend = (\<lambda>k. Reply (reply st)), duration = ''12ms'', generatedId = ''req_3_abc''\<rparr>"

text \<open>
  A verifier that knows one good token, one good token whose payload has no
  \<^verbatim>\<open>id\<close>, and one expired token, and rejects every other token as invalid; and requests: one for the orders route without credentials, one for
  it with a bearer token, one without credentials that carries identity headers of the
  client's choosing, one with the good token that comes through a forwarding proxy,
  and one with the token without \<^verbatim>\<open>id\<close> and an identity header of the client's
  choosing.
\<close>

definition demo_verify :: "string \<Rightarrow> verified" where
  "demo_verify token =
     (if token = ''good'' then Decoded \<lparr>uid = Some ''u42'', email = Some ''ann@example.com''\<rparr>
      else if token = ''noid'' then Decoded \<lparr>uid = None, email = Some ''ann@example.com''\<rparr>
      else if token = ''old'' then Throws ''TokenExpiredError''
      else Throws ''JsonWebTokenError'')"

definition order_request :: Request where
  "order_request =
     \<lparr>path = ''/api/orders'', httpMethod = ''POST'', body = ''{}'',
      headers = (\<lambda>h. None), user = None, remoteAddress = Some ''10.0.0.9''\<rparr>"

definition bearer_request :: "string \<Rightarrow> Request" where
  "bearer_request token =
     \<lparr>path = ''/api/orders'', httpMethod = ''GET'', body = [],
      headers = [''authorization'' \<mapsto> ''Bearer '' @ token], user = None,
      remoteAddress = Some ''10.0.0.9''\<rparr>"

definition spoof_request :: Request where
  "spoof_request =
     \<lparr>path = ''/api/products'', httpMethod = ''GET'', body = [],
      headers = [''x-user-id'' \<mapsto> ''admin'', ''x-user-email'' \<mapsto> ''admin@example.com''],
      user = None, remoteAddress = Some ''10.0.0.9''\<rparr>"

definition token_request :: Request where
  "token_request =
     \<lparr>path = ''/api/products'', httpMethod = ''GET'', body = [],
      headers = [''authorization'' \<mapsto> ''Bearer good'', ''x-forwarded-for'' \<mapsto> ''203.0.113.7''],
      user = None, remoteAddress = Some ''10.0.0.9''\<rparr>"

definition noid_request :: Request where
  "noid_request =
     \<lparr>path = ''/api/products'', httpMethod = ''GET'', body = [],
      headers = [''authorization'' \<mapsto> ''Bearer noid'', ''x-user-id'' \<mapsto> ''admin''],
      user = None, remoteAddress = Some ''10.0.0.9''\<rparr>"

section \<open>Properties of the registry\<close>

lemma map_keys_map_set_present:
  "k \<in> set (map_keys kvs) \<Longrightarrow> map_keys (map_set k v kvs) = map_keys kvs"
  by (induction kvs) (force simp: map_keys_def)+

lemma map_keys_map_set:
  "map_keys (map_set k v kvs) = (if k \<in> set (map_keys kvs) then map_keys kvs else map_keys kvs @ [k])"
  by (induction kvs) (force simp: map_keys_def)+

lemma map_get_Some_key: "map_get kvs k = Some v \<Longrightarrow> k \<in> set (map_keys kvs)"
  by (auto simp: map_get_def map_keys_def dest: map_of_SomeD intro: rev_image_eqI)

lemma map_get_None_key: "map_get kvs k = None \<longleftrightarrow> k \<notin> set (map_keys kvs)"
  by (simp add: map_get_def map_keys_def map_of_eq_None_iff)

lemma checkServiceHealth_services:
  "services (snd (checkServiceHealth w reg n)) = services reg"
  by (simp add: checkServiceHealth_def Let_def split: option.splits sum.splits)

lemma checkServiceHealth_interval:
  "healthCheckInterval (snd (checkServiceHealth w reg n)) = healthCheckInterval reg"
  by (simp add: checkServiceHealth_def Let_def split: option.splits sum.splits)

lemma checkServiceHealth_keys:
  "map_keys (healthStatuses reg) = map_keys (services reg) \<Longrightarrow>
   map_keys (healthStatuses (snd (checkServiceHealth w reg n))) = map_keys (services reg)"
  by (auto simp: checkServiceHealth_def Let_def map_keys_map_set_present
      dest: map_get_Some_key split: option.splits sum.splits)

lemma writeEach_services: "services (writeEach w reg ns) = services reg"
  by (induction ns arbitrary: reg) (simp_all add: checkServiceHealth_services)

lemma writeEach_interval: "healthCheckInterval (writeEach w reg ns) = healthCheckInterval reg"
  by (induction ns arbitrary: reg) (simp_all add: checkServiceHealth_interval)

lemma writeEach_keys:
  "map_keys (healthStatuses reg) = map_keys (services reg) \<Longrightarrow>
   map_keys (healthStatuses (writeEach w reg ns)) = map_keys (services reg)"
proof (induction ns arbitrary: reg)
  case Nil
  then show ?case by simp
next
  case (Cons n ns)
  have "map_keys (healthStatuses (snd (checkServiceHealth w reg n)))
        = map_keys (services (snd (checkServiceHealth w reg n)))"
    using Cons.prems by (simp add: checkServiceHealth_keys checkServiceHealth_services)
  from Cons.IH [OF this] show ?case
    by (simp add: checkServiceHealth_services)
qed


lemma registerEach_keys:
  "keys_agree reg \<Longrightarrow> keys_agree (registerEach now reg cfg)"
  by (induction cfg arbitrary: reg) (simp_all add: keys_agree_def map_keys_map_set)

lemma apply_op_keys:
  "keys_agree (registry g) \<Longrightarrow>
   keys_agree (registry (apply_op g x)) \<and> services (registry (apply_op g x)) = services (registry g)"
  by (cases x)
     (simp_all add: keys_agree_def checkServiceHealth_keys checkServiceHealth_services
       checkAllServicesHealth_def writeEach_keys writeEach_services startHealthChecks_def
       stopHealthChecks_def timerFires_def Let_def split: prod.splits option.splits)

lemma run_ops_keys:
  "keys_agree (registry g) \<Longrightarrow>
   keys_agree (registry (run_ops g xs)) \<and> services (registry (run_ops g xs)) = services (registry g)"
proof (induction xs arbitrary: g)
  case Nil
  then show ?case by simp
next
  case (Cons x xs)
  from apply_op_keys [OF Cons.prems, of x] Cons.IH [of "apply_op g x"]
  show ?case by simp
qed

lemma registerEach_distinct:
  "distinct (map_keys (services reg)) \<Longrightarrow> distinct (map_keys (services (registerEach now reg cfg)))"
  by (induction cfg arbitrary: reg) (simp_all add: map_keys_map_set)

lemma registerEach_names:
  "set (map_keys (services (registerEach now reg cfg))) = set (map_keys (services reg)) \<union> name ` set cfg"
  by (induction cfg arbitrary: reg) (auto simp: map_keys_map_set)

lemma map_set_values:
  "(k', v') \<in> set (map_set k v kvs) \<Longrightarrow> (k', v') = (k, v) \<or> (k', v') \<in> set kvs"
  by (induction kvs) (auto split: if_splits)

lemma registerEach_unknown:
  "\<forall>(k, h) \<in> set (healthStatuses reg). P k h \<Longrightarrow>
   (\<And>k. P k \<lparr>service = k, status = Unknown, responseTime = None, lastCheck = now, error = None\<rparr>) \<Longrightarrow>
   \<forall>(k, h) \<in> set (healthStatuses (registerEach now reg cfg)). P k h"
proof (induction cfg arbitrary: reg)
  case Nil
  then show ?case by simp
next
  case (Cons s ss)
  show ?case
    apply simp
    apply (rule Cons.IH)
    using Cons.prems by (auto dest!: map_set_values)
qed

lemma probe_record:
  "map_get (services reg) k = Some svc \<Longrightarrow>
   service (fst (checkServiceHealth w reg k)) = k \<and>
   status (fst (checkServiceHealth w reg k)) = (if probeFails w svc then Unhealthy else Healthy)"
  by (simp add: checkServiceHealth_def probeFails_def axios_def Let_def split: upstream.splits)

lemma map_get_distinct:
  "distinct (map_keys kvs) \<Longrightarrow> (k, v) \<in> set kvs \<Longrightarrow> map_get kvs k = Some v"
  by (simp add: map_keys_def map_get_def)

lemma checkAll_records:
  assumes "distinct (map_keys (services reg))"
  shows "map (\<lambda>h. (service h, status h)) (fst (checkAllServicesHealth w c reg))
         = map (\<lambda>(k, svc). (k, if probeFails w svc then Unhealthy else Healthy)) (services reg)"
proof -
  have "\<And>k svc. (k, svc) \<in> set (services reg) \<Longrightarrow>
          (service (fst (checkServiceHealth w reg k)), status (fst (checkServiceHealth w reg k)))
          = (k, if probeFails w svc then Unhealthy else Healthy)"
    using probe_record map_get_distinct [OF assms] by simp
  then show ?thesis
    by (auto simp: checkAllServicesHealth_def map_keys_def)
qed

lemma count_status:
  "length (filter (\<lambda>h. status h = x) hs) = length (filter (\<lambda>p. snd p = x) (map (\<lambda>h. (service h, status h)) hs))"
  by (induction hs) auto

lemma count_unhealthy:
  "length (filter (\<lambda>p. snd p = Unhealthy) (map (\<lambda>(k, svc). (k, if probeFails w svc then Unhealthy else Healthy)) kvs))
   = length (filter (\<lambda>(k, svc). probeFails w svc) kvs)"
  by (induction kvs) (auto split: if_splits)

lemma count_healthy:
  "length (filter (\<lambda>p. snd p = Healthy) (map (\<lambda>(k, svc). (k, if probeFails w svc then Unhealthy else Healthy)) kvs))
   = length kvs - length (filter (\<lambda>(k, svc). probeFails w svc) kvs)"
  by (induction kvs) (auto simp: Suc_diff_le split: if_splits)

lemma run_ops_distinct:
  "distinct (map_keys (services (registry (run_ops (newGateway now cfg) xs))))"
proof -
  have k: "keys_agree (registry (newGateway now cfg))"
    unfolding newGateway_def initializeServices_def
    by (simp, rule registerEach_keys) (simp add: keys_agree_def map_keys_def)
  have "distinct (map_keys (services (registry (newGateway now cfg))))"
    unfolding newGateway_def initializeServices_def
    by (simp, rule registerEach_distinct) (simp add: map_keys_def)
  with run_ops_keys [OF k, of xs] show ?thesis by simp
qed

lemma init_keys_agree: "keys_agree (initializeServices now cfg)"
  unfolding initializeServices_def
  by (rule registerEach_keys) (simp add: keys_agree_def map_keys_def)

lemma init_distinct: "distinct (map_keys (services (initializeServices now cfg)))"
  unfolding initializeServices_def
  by (rule registerEach_distinct) (simp add: map_keys_def)

lemma init_names: "set (map_keys (services (initializeServices now cfg))) = name ` set cfg"
  unfolding initializeServices_def
  by (subst registerEach_names) (simp add: map_keys_def)

lemma init_unknown:
  "\<forall>(k, h) \<in> set (healthStatuses (initializeServices now cfg)).
     h = \<lparr>service = k, status = Unknown, responseTime = None, lastCheck = now, error = None\<rparr>"
  unfolding initializeServices_def
  by (rule registerEach_unknown) simp_all

text \<open>
  Claim C10. The stored health-status map has exactly the registered service names as
  its keys, at every moment. After \<^verbatim>\<open>initializeServices\<close> the two maps have the
  same keys, which are the configured names, and the health map holds one record per
  key, of status unknown. Whatever operations run afterwards (probes of any name,
  rounds of probes, start, stop, timer ticks), the keys of the health map stay the keys
  that were registered, and so does the service map. A probe of a name that is not
  registered returns a record of status unknown with an error message, and the registry
  it leaves is the registry it found.
\<close>

theorem health_keys_are_registered_names:
  "map_keys (healthStatuses (initializeServices now cfg)) = map_keys (services (initializeServices now cfg))
   \<and> set (map_keys (services (initializeServices now cfg))) = name ` set cfg
   \<and> distinct (map_keys (healthStatuses (initializeServices now cfg)))
   \<and> (\<forall>(k, h) \<in> set (healthStatuses (initializeServices now cfg)).
         h = \<lparr>service = k, status = Unknown, responseTime = None, lastCheck = now, error = None\<rparr>)
   \<and> map_keys (healthStatuses (registry (run_ops (newGateway now cfg) ops)))
       = map_keys (services (initializeServices now cfg))
   \<and> services (registry (run_ops (newGateway now cfg) ops)) = services (initializeServices now cfg)
   \<and> (getService reg n = None \<longrightarrow>
        checkServiceHealth w reg n =
          (\<lparr>service = n, status = Unknown, responseTime = None, lastCheck = clock w,
            error = Some ''Service not found in registry''\<rparr>, reg))"
proof -
  have k: "keys_agree (registry (newGateway now cfg))"
    by (simp add: newGateway_def init_keys_agree)
  have a: "map_keys (healthStatuses (initializeServices now cfg)) = map_keys (services (initializeServices now cfg))"
    using init_keys_agree [of now cfg] by (simp add: keys_agree_def)
  have c: "distinct (map_keys (healthStatuses (initializeServices now cfg)))"
    using init_distinct [of now cfg] a by simp
  have e: "map_keys (healthStatuses (registry (run_ops (newGateway now cfg) ops)))
       = map_keys (services (initializeServices now cfg))"
    and f: "services (registry (run_ops (newGateway now cfg) ops)) = services (initializeServices now cfg)"
    using run_ops_keys [OF k, of ops] by (simp_all add: keys_agree_def newGateway_def)
  have g: "getService reg n = None \<longrightarrow>
        checkServiceHealth w reg n =
          (\<lparr>service = n, status = Unknown, responseTime = None, lastCheck = clock w,
            error = Some ''Service not found in registry''\<rparr>, reg)"
    by (simp add: getService_def checkServiceHealth_def)
  from a init_names c init_unknown e f g show ?thesis by blast
qed


theorem health_keys_are_registered_names_witness:
  "(''order-service'',
     \<lparr>service = ''order-service'', status = Unknown, responseTime = None, lastCheck = 0, error = None\<rparr>)
     \<in> set (healthStatuses (initializeServices 0 SERVICES))
   \<and> map_keys (healthStatuses (registry (run_ops (newGateway 0 SERVICES)
        [Start demo_world [''order-service'', ''auth-service''],
         CheckService demo_world ''billing-service'',
         Tick demo_world [], Stop])))
      = [''auth-service'', ''product-service'', ''order-service'', ''recommendation-service'']
   \<and> getService (initializeServices 0 SERVICES) ''billing-service'' = None
   \<and> checkServiceHealth demo_world (initializeServices 0 SERVICES) ''billing-service'' =
        (\<lparr>service = ''billing-service'', status = Unknown, responseTime = None, lastCheck = 1000,
          error = Some ''Service not found in registry''\<rparr>, initializeServices 0 SERVICES)"
  using health_keys_are_registered_names
    [of 0 SERVICES
        "[Start demo_world [''order-service'', ''auth-service''],
          CheckService demo_world ''billing-service'', Tick demo_world [], Stop]"
        "initializeServices 0 SERVICES" "''billing-service''" demo_world]
  by (simp add: initializeServices_def SERVICES_def map_keys_def map_get_def getService_def demo_world_def)

text \<open>
  Claim C7. In a registry reached from \<^verbatim>\<open>initializeServices\<close> by any operations,
  with \<open>N\<close> registered services of which \<open>M\<close> fail their probe,
  \<^verbatim>\<open>checkAllServicesHealth\<close> returns \<open>N\<close> records, one per registered service in
  the order of the registry whatever the order in which the probes complete, each
  marked unhealthy exactly when its service fails the probe, so that \<open>M\<close> are
  unhealthy and \<open>N - M\<close> healthy; and \<^verbatim>\<open>GET /ready\<close> answers 200 when
  \<open>N - M > 0\<close> and 503 otherwise, with the records and their counts in the body.
\<close>

theorem checkAll_ready_counts:
  fixes now :: int and cfg :: "ServiceConfig list" and ops :: "registry_op list"
    and w :: World and completion :: "string list"
  defines "reg \<equiv> registry (run_ops (newGateway now cfg) ops)"
  defines "N \<equiv> length (services reg)"
  defines "M \<equiv> length (filter (\<lambda>(k, svc). probeFails w svc) (services reg))"
  defines "records \<equiv> fst (checkAllServicesHealth w completion reg)"
  defines "resp \<equiv> fst (ready w completion reg)"
  shows "length records = N
    \<and> map service records = getServiceNames reg
    \<and> map (\<lambda>h. (service h, status h)) records
        = map (\<lambda>(k, svc). (k, if probeFails w svc then Unhealthy else Healthy)) (services reg)
    \<and> length (filter (\<lambda>h. status h = Unhealthy) records) = M
    \<and> length (filter (\<lambda>h. status h = Healthy) records) = N - M
    \<and> M \<le> N
    \<and> ready_code resp = (if N - M > 0 then 200 else 503)
    \<and> ready_details resp = records
    \<and> ready_total resp = N \<and> ready_healthy resp = N - M \<and> ready_unhealthy resp = M"
proof -
  have d: "distinct (map_keys (services reg))"
    unfolding reg_def by (rule run_ops_distinct)
  have recs: "map (\<lambda>h. (service h, status h)) records
        = map (\<lambda>(k, svc). (k, if probeFails w svc then Unhealthy else Healthy)) (services reg)"
    unfolding records_def by (rule checkAll_records [OF d])
  have len: "length records = N"
    by (simp add: records_def N_def checkAllServicesHealth_def map_keys_def)
  have names: "map service records = getServiceNames reg"
    by (simp add: records_def checkAllServicesHealth_def getServiceNames_def
        checkServiceHealth_def Let_def map_keys_def comp_def split: option.splits sum.splits)
  have unh: "length (filter (\<lambda>h. status h = Unhealthy) records) = M"
    by (simp only: count_status [of Unhealthy records] recs count_unhealthy M_def)
  have hea: "length (filter (\<lambda>h. status h = Healthy) records) = N - M"
    by (simp only: count_status [of Healthy records] recs count_healthy M_def N_def)
  have le: "M \<le> N" by (simp add: M_def N_def)
  have r0: "resp =
      \<lparr>ready_code = (if length (filter (\<lambda>h. status h = Healthy) records) > 0 then 200 else 503),
       ready_status = (if length (filter (\<lambda>h. status h = Healthy) records) > 0 then ''ready'' else ''not ready''),
       ready_total = length records,
       ready_healthy = length (filter (\<lambda>h. status h = Healthy) records),
       ready_unhealthy = length (filter (\<lambda>h. status h = Unhealthy) records),
       ready_details = records\<rparr>"
    by (simp add: resp_def ready_def records_def Let_def case_prod_beta del: length_greater_0_conv)
  have r: "ready_code resp = (if N - M > 0 then 200 else 503)"
    "ready_details resp = records" "ready_total resp = N"
    "ready_healthy resp = N - M" "ready_unhealthy resp = M"
    by (simp_all only: r0 unh hea len ReadyResponse.simps)
  from len names recs unh hea le r show ?thesis by simp
qed

theorem checkAll_ready_counts_witness:
  "map (\<lambda>h. (service h, status h))
       (fst (checkAllServicesHealth demo_world [''order-service'', ''auth-service'']
          (registry (run_ops (newGateway 0 demo_services) []))))
     = [(''auth-service'', Healthy), (''order-service'', Unhealthy)]
   \<and> ready_code (fst (ready demo_world [''order-service'', ''auth-service'']
          (registry (run_ops (newGateway 0 demo_services) [])))) = 200"
  using checkAll_ready_counts [where w = demo_world and now = 0 and cfg = demo_services and ops = "[]"
        and completion = "[''order-service'', ''auth-service'']"]
  by (simp add: newGateway_def initializeServices_def demo_services_def demo_world_def probeFails_def)

lemma start_runtime:
  "runtime (startHealthChecks w c g) =
     \<lparr>intervals = intervals (runtime g) @ [nextHandle (runtime g)],
      nextHandle = Suc (nextHandle (runtime g))\<rparr>"
  by (simp add: startHealthChecks_def setInterval_def Let_def)

lemma start_handle:
  "healthCheckInterval (registry (startHealthChecks w c g)) = Some (nextHandle (runtime g))"
  by (simp add: startHealthChecks_def setInterval_def Let_def)

lemma registerEach_interval:
  "healthCheckInterval (registerEach now reg cfg) = healthCheckInterval reg"
  by (induction cfg arbitrary: reg) simp_all

text \<open>
  Claim C9 as stated fails: \<^verbatim>\<open>startHealthChecks\<close> has no guard, so a second call
  on a fresh registry leaves two recurring timers live.
\<close>

theorem start_twice_two_timers:
  "intervals (runtime (startHealthChecks demo_world [] (startHealthChecks demo_world []
      (newGateway 0 SERVICES)))) = [0, 1]
   \<and> \<not> length (intervals (runtime (startHealthChecks demo_world [] (startHealthChecks demo_world []
      (newGateway 0 SERVICES))))) \<le> 1"
  by (simp add: start_runtime newGateway_def)

text \<open>
  Claim C9, amended. Every call of \<^verbatim>\<open>startHealthChecks\<close> sets one more recurring
  timer and stores its handle in place of the one stored before, which is not cleared:
  after two calls on a fresh registry two timers are live, and \<^verbatim>\<open>stopHealthChecks\<close>
  then clears the second only. \<^verbatim>\<open>stopHealthChecks\<close> after a single start leaves no
  timer; on a registry that holds no handle, such as one that was never started, it
  changes nothing; and calling it twice is the same as calling it once.
\<close>

theorem start_adds_timer_stop_clears_last:
  "intervals (runtime (startHealthChecks w c g)) = intervals (runtime g) @ [nextHandle (runtime g)]
   \<and> length (intervals (runtime (startHealthChecks w c g))) = Suc (length (intervals (runtime g)))
   \<and> healthCheckInterval (registry (startHealthChecks w c g)) = Some (nextHandle (runtime g))
   \<and> intervals (runtime (startHealthChecks w' c' (startHealthChecks w c (newGateway now cfg)))) = [0, 1]
   \<and> intervals (runtime (stopHealthChecks
        (startHealthChecks w' c' (startHealthChecks w c (newGateway now cfg))))) = [0]
   \<and> intervals (runtime (stopHealthChecks (startHealthChecks w c (newGateway now cfg)))) = []
   \<and> (healthCheckInterval (registry g) = None \<longrightarrow> stopHealthChecks g = g)
   \<and> stopHealthChecks (newGateway now cfg) = newGateway now cfg
   \<and> stopHealthChecks (stopHealthChecks g) = stopHealthChecks g"
proof -
  have i: "healthCheckInterval (registry (newGateway now cfg)) = None"
    by (simp add: newGateway_def initializeServices_def registerEach_interval)
  show ?thesis
    apply (intro conjI)
            apply (simp add: start_runtime)
           apply (simp add: start_runtime)
          apply (simp add: start_handle)
         apply (simp add: start_runtime newGateway_def)
        apply (simp add: stopHealthChecks_def start_handle start_runtime clearInterval_def newGateway_def)
       apply (simp add: stopHealthChecks_def start_handle start_runtime clearInterval_def newGateway_def)
      apply (simp add: stopHealthChecks_def)
     apply (simp add: stopHealthChecks_def i)
    apply (simp add: stopHealthChecks_def clearInterval_def split: option.splits)
    done
qed

theorem start_adds_timer_stop_clears_last_witness:
  "healthCheckInterval (registry (newGateway 0 SERVICES)) = None
   \<and> stopHealthChecks (newGateway 0 SERVICES) = newGateway 0 SERVICES
   \<and> intervals (runtime (stopHealthChecks
        (startHealthChecks demo_world [] (startHealthChecks demo_world [] (newGateway 0 SERVICES))))) = [0]"
  using start_adds_timer_stop_clears_last
    [where w = demo_world and c = "[]" and g = "newGateway 0 SERVICES" and w' = demo_world
       and c' = "[]" and now = 0 and cfg = SERVICES]
  by (simp add: newGateway_def initializeServices_def SERVICES_def)

section \<open>Properties of route resolution\<close>

lemma js_replace_prefix: "startsWith s p \<Longrightarrow> js_replace s p [] = drop (length p) s"
  by (cases s) (auto simp: startsWith_def)

lemma find_first_match:
  "\<forall>m' \<in> set before. \<not> P m' \<Longrightarrow> P m \<Longrightarrow> find P (before @ m # after) = Some m"
  by (induction before) auto

lemma find_no_match: "(find P xs = None) = (\<forall>x \<in> set xs. \<not> P x)"
  by (induction xs) auto

text \<open>
  Claim C6. Route resolution is \<open>RouteNotFound\<close> exactly when no rule's prefix is a
  prefix of the path. Otherwise the rule selected is the first one, in declared order,
  whose prefix the path starts with: if no service is registered under its name the
  result is \<open>ServiceNotRegistered\<close>, which is another result than
  \<open>RouteNotFound\<close> (\<^verbatim>\<open>proxyRequest\<close> answers 503 for the one and 404 for the
  other, and forwards nothing in either case); if one is, the target path is the path
  unchanged when the rule does not strip, and when it strips, the path without the
  prefix, with a \<open>/\<close> put in front unless it starts with one.
\<close>

theorem route_resolution:
  "(resolve routes reg p = RouteNotFound \<longleftrightarrow> (\<forall>m \<in> set routes. \<not> startsWith p (prefix m)))
   \<and> (routes = before @ m # after \<and> (\<forall>m' \<in> set before. \<not> startsWith p (prefix m'))
        \<and> startsWith p (prefix m) \<longrightarrow>
        (getService reg (serviceName m) = None \<longrightarrow>
           resolve routes reg p = ServiceNotRegistered (serviceName m))
        \<and> (getService reg (serviceName m) = Some svc \<longrightarrow>
           resolve routes reg p =
             Resolved m svc
               (if stripPrefix m then
                  (if startsWith (drop (length (prefix m)) p) ''/'' then drop (length (prefix m)) p
                   else ''/'' @ drop (length (prefix m)) p)
                else p)))
   \<and> (resolve routes reg (path req) = RouteNotFound \<longrightarrow>
        res_status (the (answer (proxyRequest routes reg pw req))) = 404
        \<and> outbound (proxyRequest routes reg pw req) = [])
   \<and> (resolve routes reg (path req) = ServiceNotRegistered n \<longrightarrow>
        res_status (the (answer (proxyRequest routes reg pw req))) = 503
        \<and> outbound (proxyRequest routes reg pw req) = [])
   \<and> RouteNotFound \<noteq> ServiceNotRegistered n"
proof -
  have a: "resolve routes reg p = RouteNotFound \<longleftrightarrow> (\<forall>m \<in> set routes. \<not> startsWith p (prefix m))"
  proof -
    have "resolve routes reg p = RouteNotFound \<longleftrightarrow> find (\<lambda>m. startsWith p (prefix m)) routes = None"
      by (simp add: resolve_def split: option.splits)
    then show ?thesis by (simp add: find_no_match)
  qed
  have b: "resolve routes reg p = ServiceNotRegistered (serviceName m)"
    if "routes = before @ m # after" "\<forall>m' \<in> set before. \<not> startsWith p (prefix m')"
      "startsWith p (prefix m)" "getService reg (serviceName m) = None"
    using that by (simp add: resolve_def find_first_match)
  have c: "resolve routes reg p =
             Resolved m svc
               (if stripPrefix m then
                  (if startsWith (drop (length (prefix m)) p) ''/'' then drop (length (prefix m)) p
                   else ''/'' @ drop (length (prefix m)) p)
                else p)"
    if "routes = before @ m # after" "\<forall>m' \<in> set before. \<not> startsWith p (prefix m')"
      "startsWith p (prefix m)" "getService reg (serviceName m) = Some svc"
    using that by (simp add: resolve_def find_first_match js_replace_prefix Let_def)
  have d: "resolve routes reg (path req) = RouteNotFound \<longrightarrow>
        res_status (the (answer (proxyRequest routes reg pw req))) = 404
        \<and> outbound (proxyRequest routes reg pw req) = []"
    by (simp add: proxyRequest_def)
  have e: "resolve routes reg (path req) = ServiceNotRegistered n \<longrightarrow>
        res_status (the (answer (proxyRequest routes reg pw req))) = 503
        \<and> outbound (proxyRequest routes reg pw req) = []"
    by (simp add: proxyRequest_def)
  from a b c d e show ?thesis by blast
qed


theorem route_resolution_witness:
  "resolve demo_routes (initializeServices 0 SERVICES) ''/health'' = RouteNotFound
   \<and> resolve demo_routes (initializeServices 0 SERVICES) ''/api/orders/7''
       = Resolved (demo_routes ! 0) (SERVICES ! 2) ''/7''
   \<and> resolve demo_routes (initializeServices 0 SERVICES) ''/api/orders''
       = Resolved (demo_routes ! 0) (SERVICES ! 2) ''/''
   \<and> resolve ROUTE_MAPPINGS (initializeServices 0 SERVICES) ''/api/orders/7''
       = Resolved (ROUTE_MAPPINGS ! 2) (SERVICES ! 2) ''/api/orders/7''
   \<and> resolve demo_routes (initializeServices 0 SERVICES) ''/api/invoices''
       = ServiceNotRegistered ''billing-service''"
  using
    route_resolution [where routes = demo_routes and reg = "initializeServices 0 SERVICES"
      and p = "''/health''"]
    route_resolution [where routes = demo_routes and reg = "initializeServices 0 SERVICES"
      and p = "''/api/orders/7''" and before = "[]" and m = "demo_routes ! 0"
      and after = "[demo_routes ! 1]" and svc = "SERVICES ! 2"]
    route_resolution [where routes = demo_routes and reg = "initializeServices 0 SERVICES"
      and p = "''/api/orders''" and before = "[]" and m = "demo_routes ! 0"
      and after = "[demo_routes ! 1]" and svc = "SERVICES ! 2"]
    route_resolution [where routes = ROUTE_MAPPINGS and reg = "initializeServices 0 SERVICES"
      and p = "''/api/orders/7''" and before = "take 2 ROUTE_MAPPINGS" and m = "ROUTE_MAPPINGS ! 2"
      and after = "drop 3 ROUTE_MAPPINGS" and svc = "SERVICES ! 2"]
    route_resolution [where routes = demo_routes and reg = "initializeServices 0 SERVICES"
      and p = "''/api/invoices''" and before = "[demo_routes ! 0]" and m = "demo_routes ! 1"
      and after = "[]"]
  by (simp add: demo_routes_def ROUTE_MAPPINGS_def startsWith_def initializeServices_def
      SERVICES_def getService_def map_get_def)

section \<open>Properties of the proxy forwarder\<close>

declare attemptFrom.simps [simp del]

lemma attemptFrom_over:
  "retries' < attempt \<Longrightarrow>
   attemptFrom call config retries' attempt lastError = \<lparr>outcome = Inl lastError, events = []\<rparr>"
  by (subst attemptFrom.simps) simp

lemma attemptFrom_resolved:
  "attempt \<le> retries' \<Longrightarrow> call attempt = Inr r \<Longrightarrow>
   attemptFrom call config retries' attempt lastError = \<lparr>outcome = Inr r, events = [Sent config]\<rparr>"
  by (subst attemptFrom.simps) simp

lemma attemptFrom_4xx:
  "attempt \<le> retries' \<Longrightarrow> call attempt = Inl e \<Longrightarrow> carries4xx e \<Longrightarrow>
   attemptFrom call config retries' attempt lastError = \<lparr>outcome = Inl (Some e), events = [Sent config]\<rparr>"
  by (subst attemptFrom.simps) (simp add: carries4xx_def)

lemma attemptFrom_retry:
  "attempt \<le> retries' \<Longrightarrow> call attempt = Inl e \<Longrightarrow> \<not> carries4xx e \<Longrightarrow>
   attemptFrom call config retries' attempt lastError =
     (attemptFrom call config retries' (Suc attempt) (Some e))
       \<lparr>events := Sent config # (if attempt < retries' then [Slept (2 ^ attempt * 100)] else [])
                  @ events (attemptFrom call config retries' (Suc attempt) (Some e))\<rparr>"
  by (subst attemptFrom.simps) (simp add: carries4xx_def Let_def)

lemma attemptFrom_last_error_irrelevant:
  "attempt \<le> retries' \<Longrightarrow>
   attemptFrom call config retries' attempt lastError = attemptFrom call config retries' attempt lastError'"
  by (subst attemptFrom.simps, subst (2) attemptFrom.simps) simp

lemma attemptFrom_bound:
  "attempts (events (attemptFrom call config retries' attempt lastError)) \<le> Suc retries' - attempt"
proof (induction call config retries' attempt lastError rule: attemptFrom.induct)
  case (1 call config retries' attempt lastError)
  show ?case
  proof (cases "attempt \<le> retries'")
    case False
    then show ?thesis by (simp add: attemptFrom_over attempts_def)
  next
    case le: True
    show ?thesis
    proof (cases "call attempt")
      case (Inr r)
      with le show ?thesis by (simp add: attemptFrom_resolved attempts_def)
    next
      case (Inl e)
      show ?thesis
      proof (cases "carries4xx e")
        case True
        with le Inl show ?thesis by (simp add: attemptFrom_4xx attempts_def)
      next
        case False
        from "1.IH" [OF le Inl] False
        have "attempts (events (attemptFrom call config retries' (Suc attempt) (Some e)))
              \<le> Suc retries' - Suc attempt"
          by (simp add: carries4xx_def)
        with le Inl False show ?thesis
          by (simp add: attemptFrom_retry attempts_def)
      qed
    qed
  qed
qed

lemma attemptFrom_retries_until:
  assumes "\<forall>k. a \<le> k \<and> k < j \<longrightarrow> (\<exists>e. call k = Inl e \<and> \<not> carries4xx e)" "a \<le> j" "j \<le> R"
  shows "outcome (attemptFrom call config R a le) = outcome (attemptFrom call config R j le')
       \<and> events (attemptFrom call config R a le)
           = concat (map (\<lambda>k. [Sent config, Slept (2 ^ k * 100)]) [a..<j])
             @ events (attemptFrom call config R j le')"
  using assms
proof (induction "j - a" arbitrary: a le)
  case 0
  then have "a = j" by simp
  with 0 show ?case using attemptFrom_last_error_irrelevant [of j R call config le le'] by simp
next
  case (Suc n)
  then have lt: "a < j" by simp
  with Suc.prems obtain e where e: "call a = Inl e" "\<not> carries4xx e" by auto
  have ih: "outcome (attemptFrom call config R (Suc a) (Some e)) = outcome (attemptFrom call config R j le')
       \<and> events (attemptFrom call config R (Suc a) (Some e))
           = concat (map (\<lambda>k. [Sent config, Slept (2 ^ k * 100)]) [Suc a..<j])
             @ events (attemptFrom call config R j le')"
    using Suc.hyps(1) [of "Suc a" "Some e"] Suc.hyps(2) Suc.prems lt by auto
  from lt Suc.prems have "a \<le> R" "a < R" by simp_all
  with e ih lt show ?case
    by (simp add: attemptFrom_retry upt_conv_Cons)
qed

lemma axios_accept_all:
  "axios (\<lambda>st. True) (Reply r) = Inr r"
  "axios (\<lambda>st. True) (NetworkError c m) = Inl \<lparr>code = Some c, message = m, response = None\<rparr>"
  by (simp_all add: axios_def)

lemma network_error_retryable:
  "\<not> carries4xx \<lparr>code = Some c, message = m, response = None\<rparr>"
  by (simp add: carries4xx_def)

lemma attempts_schedule: "a \<le> j \<Longrightarrow> attempts (schedule config a j) = Suc (j - a)"
proof (induction "j - a" arbitrary: a)
  case 0
  then show ?case by (simp add: attempts_def schedule_def)
next
  case (Suc n)
  then have "a < j" by simp
  moreover from Suc have "attempts (schedule config (Suc a) j) = Suc (j - Suc a)" by simp
  ultimately show ?case
    by (simp add: attempts_def schedule_def upt_conv_Cons)
qed

text \<open>
  Claim C2, amended. \<^verbatim>\<open>forwardRequest\<close> makes at most \<open>R\<close> attempts, where
  \<open>R\<close> is the retry budget (3 when the option is absent). An attempt that fails
  below HTTP is followed, while attempts remain, by a wait of \<open>2 ^ attempt * 100\<close> ms
  and the next attempt. An attempt that the upstream answers ends the forward, whatever
  the status of the answer, 4xx and 5xx included: the response is returned. So when the
  attempts before the \<open>j\<close>-th fail below HTTP and the \<open>j\<close>-th is answered, exactly
  \<open>j\<close> attempts are made; when all \<open>R \<ge> 1\<close> attempts fail below HTTP, the error
  of the last one is thrown after exactly \<open>R\<close> attempts; with a budget of 0 nothing
  is attempted and \<^verbatim>\<open>null\<close> is thrown. In the retry loop itself, a rejected call
  whose error carries a 4xx response is thrown at once.
\<close>

theorem forwardRequest_retries:
  fixes backend :: "nat \<Rightarrow> upstream" and headers' :: "string \<Rightarrow> string option"
    and targetUrl httpMethod' path' body' :: string and timeout' retries' :: "nat option"
  defines "R \<equiv> (case retries' of None \<Rightarrow> 3 | Some n \<Rightarrow> n)"
  defines "config \<equiv> \<lparr>cfg_method = httpMethod', cfg_url = targetUrl @ path', cfg_data = body',
                     cfg_headers = outboundHeaders headers',
                     cfg_timeout = (case timeout' of None \<Rightarrow> 5000 | Some t \<Rightarrow> t),
                     cfg_maxRedirects = 5\<rparr>"
  defines "fwd \<equiv> forwardRequest backend targetUrl httpMethod' path' body' headers' timeout' retries'"
  shows "attempts (events fwd) \<le> R
    \<and> (1 \<le> j \<and> j \<le> R \<and> (\<forall>k. 1 \<le> k \<and> k < j \<longrightarrow> (\<exists>c m. backend k = NetworkError c m))
         \<and> backend j = Reply r \<longrightarrow>
         outcome fwd = Inr r \<and> events fwd = schedule config 1 j \<and> attempts (events fwd) = j)
    \<and> (1 \<le> R \<and> (\<forall>k. 1 \<le> k \<and> k < R \<longrightarrow> (\<exists>c m. backend k = NetworkError c m))
         \<and> backend R = NetworkError c m \<longrightarrow>
         outcome fwd = Inl (Some \<lparr>code = Some c, message = m, response = None\<rparr>)
         \<and> events fwd = schedule config 1 R \<and> attempts (events fwd) = R)
    \<and> (R = 0 \<longrightarrow> outcome fwd = Inl None \<and> events fwd = [])
    \<and> (a \<le> R \<and> call a = Inl e \<and> carries4xx e \<longrightarrow>
         attemptFrom call config R a lastError = \<lparr>outcome = Inl (Some e), events = [Sent config]\<rparr>)"
proof -
  let ?call = "\<lambda>attempt. axios (\<lambda>st. True) (backend attempt)"
  have fwd: "fwd = attemptFrom ?call config R 1 None"
    by (simp add: fwd_def forwardRequest_def config_def R_def)
  have bound: "attempts (events fwd) \<le> R"
    using attemptFrom_bound [of ?call config R 1 None] by (simp add: fwd)
  have upto: "outcome fwd = outcome (attemptFrom ?call config R j None)
       \<and> events fwd = concat (map (\<lambda>k. [Sent config, Slept (2 ^ k * 100)]) [1..<j])
             @ events (attemptFrom ?call config R j None)"
    if "1 \<le> j" "j \<le> R" "\<forall>k. 1 \<le> k \<and> k < j \<longrightarrow> (\<exists>c m. backend k = NetworkError c m)" for j
  proof -
    from that(3) have "\<forall>k. 1 \<le> k \<and> k < j \<longrightarrow> (\<exists>e. ?call k = Inl e \<and> \<not> carries4xx e)"
      by (auto simp: axios_accept_all network_error_retryable)
    from attemptFrom_retries_until [OF this that(1) that(2)] show ?thesis
      unfolding fwd by blast
  qed
  have ok: "outcome fwd = Inr r \<and> events fwd = schedule config 1 j \<and> attempts (events fwd) = j"
    if "1 \<le> j" "j \<le> R" "\<forall>k. 1 \<le> k \<and> k < j \<longrightarrow> (\<exists>c m. backend k = NetworkError c m)"
      "backend j = Reply r"
  proof -
    have "attemptFrom ?call config R j None = \<lparr>outcome = Inr r, events = [Sent config]\<rparr>"
      using that(2,4) by (simp add: attemptFrom_resolved axios_accept_all)
    with upto [OF that(1-3)] have "outcome fwd = Inr r" "events fwd = schedule config 1 j"
      by (simp_all add: schedule_def)
    moreover from this that(1) have "attempts (events fwd) = j"
      by (simp add: attempts_schedule)
    ultimately show ?thesis by simp
  qed
  have exhausted: "outcome fwd = Inl (Some \<lparr>code = Some c, message = m, response = None\<rparr>)
         \<and> events fwd = schedule config 1 R \<and> attempts (events fwd) = R"
    if "1 \<le> R" "\<forall>k. 1 \<le> k \<and> k < R \<longrightarrow> (\<exists>c m. backend k = NetworkError c m)"
      "backend R = NetworkError c m"
  proof -
    have "attemptFrom ?call config R R None
          = \<lparr>outcome = Inl (Some \<lparr>code = Some c, message = m, response = None\<rparr>), events = [Sent config]\<rparr>"
      using that(3)
      by (simp add: attemptFrom_retry [where e = "\<lparr>code = Some c, message = m, response = None\<rparr>"]
          attemptFrom_over axios_accept_all network_error_retryable)
    with upto [OF that(1) order_refl that(2)]
    have "outcome fwd = Inl (Some \<lparr>code = Some c, message = m, response = None\<rparr>)"
      "events fwd = schedule config 1 R"
      by (simp_all add: schedule_def)
    moreover from this that(1) have "attempts (events fwd) = R"
      by (simp add: attempts_schedule)
    ultimately show ?thesis by simp
  qed
  have none: "R = 0 \<longrightarrow> outcome fwd = Inl None \<and> events fwd = []"
    by (simp add: fwd attemptFrom_over)
  have terminal: "a \<le> R \<and> call a = Inl e \<and> carries4xx e \<longrightarrow>
         attemptFrom call config R a lastError = \<lparr>outcome = Inl (Some e), events = [Sent config]\<rparr>"
    by (simp add: attemptFrom_4xx)
  from bound ok exhausted none terminal show ?thesis by blast
qed

text \<open>
  Claim C2 as stated fails: with a budget of 3, a backend that answers every call with
  HTTP 500 is called once; the 500 response is returned and nothing is retried.
\<close>

theorem server_error_not_retried:
  "forwardRequest (\<lambda>k. Reply (reply 500)) ''http://localhost:3000'' ''GET'' ''/api/products'' []
       (\<lambda>h. None) (Some 5000) (Some 3)
     = \<lparr>outcome = Inr (reply 500), events = [Sent demo_config]\<rparr>
   \<and> resp_status (reply 500) = 500
   \<and> attempts [Sent demo_config] = 1"
  by (simp add: forwardRequest_def attemptFrom_resolved axios_def demo_config_def reply_def attempts_def)

theorem forwardRequest_retries_witness:
  "outcome (forwardRequest flaky_backend ''http://localhost:3000'' ''GET'' ''/api/products'' []
       (\<lambda>h. None) (Some 5000) (Some 3)) = Inr (reply 200)
   \<and> events (forwardRequest flaky_backend ''http://localhost:3000'' ''GET'' ''/api/products'' []
       (\<lambda>h. None) (Some 5000) (Some 3))
      = [Sent demo_config, Slept 200, Sent demo_config, Slept 400, Sent demo_config]
   \<and> attempts (events (forwardRequest flaky_backend ''http://localhost:3000'' ''GET''
       ''/api/products'' [] (\<lambda>h. None) (Some 5000) (Some 3))) = 3
   \<and> outcome (forwardRequest (\<lambda>k. Reply (reply 404)) ''http://localhost:3000'' ''GET''
       ''/api/products'' [] (\<lambda>h. None) (Some 5000) None) = Inr (reply 404)
   \<and> attempts (events (forwardRequest (\<lambda>k. Reply (reply 404)) ''http://localhost:3000'' ''GET''
       ''/api/products'' [] (\<lambda>h. None) (Some 5000) None)) = 1
   \<and> outcome (forwardRequest (\<lambda>k. NetworkError ''ETIMEDOUT'' ''timeout'') ''http://localhost:3000''
       ''GET'' ''/api/products'' [] (\<lambda>h. None) (Some 5000) (Some 2))
      = Inl (Some \<lparr>code = Some ''ETIMEDOUT'', message = ''timeout'', response = None\<rparr>)
   \<and> events (forwardRequest (\<lambda>k. NetworkError ''ETIMEDOUT'' ''timeout'') ''http://localhost:3000''
       ''GET'' ''/api/products'' [] (\<lambda>h. None) (Some 5000) (Some 2))
      = [Sent demo_config, Slept 200, Sent demo_config]
   \<and> outcome (forwardRequest flaky_backend ''http://localhost:3000'' ''GET'' ''/api/products'' []
       (\<lambda>h. None) (Some 5000) (Some 0)) = Inl None
   \<and> attemptFrom (\<lambda>k. Inl \<lparr>code = Some ''ERR_BAD_REQUEST'', message = ''Request failed'',
                              response = Some (reply 404)\<rparr>) demo_config 3 1 None
      = \<lparr>outcome = Inl (Some \<lparr>code = Some ''ERR_BAD_REQUEST'', message = ''Request failed'',
                                response = Some (reply 404)\<rparr>),
         events = [Sent demo_config]\<rparr>"
proof -
  let ?fwd = "\<lambda>backend retries'. forwardRequest backend ''http://localhost:3000'' ''GET''
                ''/api/products'' [] (\<lambda>h. None) (Some 5000) retries'"
  have flaky: "outcome (?fwd flaky_backend (Some 3)) = Inr (reply 200)
      \<and> events (?fwd flaky_backend (Some 3))
          = [Sent demo_config, Slept 200, Sent demo_config, Slept 400, Sent demo_config]
      \<and> attempts (events (?fwd flaky_backend (Some 3))) = 3"
    using forwardRequest_retries [where backend = flaky_backend and targetUrl = "''http://localhost:3000''"
        and httpMethod' = "''GET''" and path' = "''/api/products''" and body' = "[]"
        and headers' = "\<lambda>h. None" and timeout' = "Some 5000"
        and retries' = "Some 3" and j = 3 and r = "reply 200" and c = "''ETIMEDOUT''" and m = "''timeout''"
        and a = 1 and lastError = None and call = "\<lambda>k. Inr (reply 200)"
        and e = "\<lparr>code = Some ''ERR_BAD_REQUEST'', message = ''Request failed'',
                 response = Some (reply 404)\<rparr>"]
    by (simp add: flaky_backend_def schedule_def demo_config_def upt_conv_Cons attempts_def)
  have notfound: "outcome (?fwd (\<lambda>k. Reply (reply 404)) None) = Inr (reply 404)
      \<and> attempts (events (?fwd (\<lambda>k. Reply (reply 404)) None)) = 1"
    using forwardRequest_retries [where backend = "\<lambda>k. Reply (reply 404)" and targetUrl = "''http://localhost:3000''"
        and httpMethod' = "''GET''" and path' = "''/api/products''" and body' = "[]"
        and headers' = "\<lambda>h. None" and timeout' = "Some 5000"
        and retries' = None and j = 1 and r = "reply 404" and c = "''ETIMEDOUT''" and m = "''timeout''"
        and a = 1 and lastError = None and call = "\<lambda>k. Inr (reply 200)"
        and e = "\<lparr>code = Some ''ERR_BAD_REQUEST'', message = ''Request failed'',
                 response = Some (reply 404)\<rparr>"]
    by (simp add: schedule_def attempts_def)
  have timeouts: "outcome (?fwd (\<lambda>k. NetworkError ''ETIMEDOUT'' ''timeout'') (Some 2))
        = Inl (Some \<lparr>code = Some ''ETIMEDOUT'', message = ''timeout'', response = None\<rparr>)
      \<and> events (?fwd (\<lambda>k. NetworkError ''ETIMEDOUT'' ''timeout'') (Some 2))
        = [Sent demo_config, Slept 200, Sent demo_config]"
    using forwardRequest_retries [where backend = "\<lambda>k. NetworkError ''ETIMEDOUT'' ''timeout''" and targetUrl = "''http://localhost:3000''"
        and httpMethod' = "''GET''" and path' = "''/api/products''" and body' = "[]"
        and headers' = "\<lambda>h. None" and timeout' = "Some 5000"
        and retries' = "Some 2" and j = 1 and r = "reply 200" and c = "''ETIMEDOUT''" and m = "''timeout''"
        and a = 1 and lastError = None and call = "\<lambda>k. Inr (reply 200)"
        and e = "\<lparr>code = Some ''ERR_BAD_REQUEST'', message = ''Request failed'',
                 response = Some (reply 404)\<rparr>"]
    by (simp add: schedule_def demo_config_def upt_conv_Cons attempts_def)
  have zero: "outcome (?fwd flaky_backend (Some 0)) = Inl None"
    using forwardRequest_retries [where backend = flaky_backend and targetUrl = "''http://localhost:3000''"
        and httpMethod' = "''GET''" and path' = "''/api/products''" and body' = "[]"
        and headers' = "\<lambda>h. None" and timeout' = "Some 5000"
        and retries' = "Some 0" and j = 1 and r = "reply 200" and c = "''ETIMEDOUT''" and m = "''timeout''"
        and a = 1 and lastError = None and call = "\<lambda>k. Inr (reply 200)"
        and e = "\<lparr>code = Some ''ERR_BAD_REQUEST'', message = ''Request failed'',
                 response = Some (reply 404)\<rparr>"]
    by simp
  have rethrown: "attemptFrom (\<lambda>k. Inl \<lparr>code = Some ''ERR_BAD_REQUEST'', message = ''Request failed'',
                              response = Some (reply 404)\<rparr>) demo_config 3 1 None
      = \<lparr>outcome = Inl (Some \<lparr>code = Some ''ERR_BAD_REQUEST'', message = ''Request failed'',
                                response = Some (reply 404)\<rparr>),
         events = [Sent demo_config]\<rparr>"
    using forwardRequest_retries [where backend = flaky_backend and targetUrl = "''http://localhost:3000''"
        and httpMethod' = "''GET''" and path' = "''/api/products''" and body' = "[]"
        and headers' = "\<lambda>h. None" and timeout' = "Some 5000"
        and retries' = "Some 3" and j = 1 and r = "reply 200" and c = "''ETIMEDOUT''" and m = "''timeout''"
        and a = 1 and lastError = None and call = "\<lambda>k. Inl \<lparr>code = Some ''ERR_BAD_REQUEST'', message = ''Request failed'', response = Some (reply 404)\<rparr>"
        and e = "\<lparr>code = Some ''ERR_BAD_REQUEST'', message = ''Request failed'',
                 response = Some (reply 404)\<rparr>"]
    by (simp add: carries4xx_def reply_def demo_config_def)
  from flaky notfound timeouts zero rethrown show ?thesis by blast
qed








section \<open>Properties of the auth gate\<close>

lemma startsWith_append: "startsWith (p @ s) p"
  by (simp add: startsWith_def)

text \<open>
  Claim C8. In required mode a bearer token that verification rejects as expired and
  one that it rejects as invalid are both answered with 401, with different error
  codes (\<open>Token expired\<close> and \<open>Invalid token\<close>). In optional mode a bearer token
  that verification rejects, for whatever reason, lets the request proceed as it came:
  no identity is attached and no error is sent. \<^verbatim>\<open>conditionalAuth\<close> applies the
  required mode when the first matching route requires auth and the optional mode
  otherwise.
\<close>

theorem expired_and_invalid_tokens:
  "(headers req ''authorization'' = Some (''Bearer '' @ token) \<and> token \<noteq> []
      \<and> verify token = Throws ''TokenExpiredError'' \<longrightarrow>
      authenticateRequest verify req =
        Respond \<lparr>res_status = 401,
                 res_body = Json ''Token expired'' ''Your session has expired. Please login again.'',
                 res_headers = []\<rparr>)
   \<and> (headers req ''authorization'' = Some (''Bearer '' @ token) \<and> token \<noteq> []
      \<and> verify token = Throws ''JsonWebTokenError'' \<longrightarrow>
      authenticateRequest verify req =
        Respond \<lparr>res_status = 401,
                 res_body = Json ''Invalid token'' ''Authentication token is invalid'',
                 res_headers = []\<rparr>)
   \<and> Json ''Token expired'' ''Your session has expired. Please login again.''
       \<noteq> Json ''Invalid token'' ''Authentication token is invalid''
   \<and> (headers req ''authorization'' = Some (''Bearer '' @ token)
      \<and> verify token = Throws errName \<longrightarrow>
      optionalAuth verify req = Next req)
   \<and> (find (\<lambda>m. startsWith (path req) (prefix m)) routes = Some mapping \<and> authRequired mapping \<longrightarrow>
      conditionalAuth verify routes req = authenticateRequest verify req)
   \<and> (find (\<lambda>m. startsWith (path req) (prefix m)) routes = Some mapping \<and> \<not> authRequired mapping \<longrightarrow>
      conditionalAuth verify routes req = optionalAuth verify req)
   \<and> (find (\<lambda>m. startsWith (path req) (prefix m)) routes = None \<longrightarrow>
      conditionalAuth verify routes req = optionalAuth verify req)"
  by (simp add: authenticateRequest_def optionalAuth_def conditionalAuth_def startsWith_def Let_def)

theorem expired_and_invalid_tokens_witness:
  "authenticateRequest demo_verify (bearer_request ''old'') =
        Respond \<lparr>res_status = 401,
                 res_body = Json ''Token expired'' ''Your session has expired. Please login again.'',
                 res_headers = []\<rparr>
   \<and> authenticateRequest demo_verify (bearer_request ''garbage'') =
        Respond \<lparr>res_status = 401,
                 res_body = Json ''Invalid token'' ''Authentication token is invalid'',
                 res_headers = []\<rparr>
   \<and> optionalAuth demo_verify (bearer_request ''old'') = Next (bearer_request ''old'')
   \<and> optionalAuth demo_verify (bearer_request ''garbage'') = Next (bearer_request ''garbage'')
   \<and> conditionalAuth demo_verify ROUTE_MAPPINGS (bearer_request ''old'')
       = authenticateRequest demo_verify (bearer_request ''old'')
   \<and> conditionalAuth demo_verify ROUTE_MAPPINGS ((bearer_request ''old'')\<lparr>path := ''/api/products''\<rparr>)
       = optionalAuth demo_verify ((bearer_request ''old'')\<lparr>path := ''/api/products''\<rparr>)
   \<and> conditionalAuth demo_verify ROUTE_MAPPINGS ((bearer_request ''old'')\<lparr>path := ''/other''\<rparr>)
       = optionalAuth demo_verify ((bearer_request ''old'')\<lparr>path := ''/other''\<rparr>)"
proof -
  have a: "authenticateRequest demo_verify (bearer_request ''old'') =
        Respond \<lparr>res_status = 401,
                 res_body = Json ''Token expired'' ''Your session has expired. Please login again.'',
                 res_headers = []\<rparr>
     \<and> optionalAuth demo_verify (bearer_request ''old'') = Next (bearer_request ''old'')
     \<and> conditionalAuth demo_verify ROUTE_MAPPINGS (bearer_request ''old'')
       = authenticateRequest demo_verify (bearer_request ''old'')"
    using expired_and_invalid_tokens [where req = "bearer_request ''old''" and token = "''old''"
        and verify = demo_verify and errName = "''TokenExpiredError''" and routes = ROUTE_MAPPINGS
        and mapping = "ROUTE_MAPPINGS ! 2"]
    by (simp add: bearer_request_def demo_verify_def ROUTE_MAPPINGS_def startsWith_def)
  have b: "authenticateRequest demo_verify (bearer_request ''garbage'') =
        Respond \<lparr>res_status = 401,
                 res_body = Json ''Invalid token'' ''Authentication token is invalid'',
                 res_headers = []\<rparr>
     \<and> optionalAuth demo_verify (bearer_request ''garbage'') = Next (bearer_request ''garbage'')"
    using expired_and_invalid_tokens [where req = "bearer_request ''garbage''" and token = "''garbage''"
        and verify = demo_verify and errName = "''JsonWebTokenError''" and routes = ROUTE_MAPPINGS
        and mapping = "ROUTE_MAPPINGS ! 2"]
    by (simp add: bearer_request_def demo_verify_def)
  have c: "conditionalAuth demo_verify ROUTE_MAPPINGS ((bearer_request ''old'')\<lparr>path := ''/api/products''\<rparr>)
       = optionalAuth demo_verify ((bearer_request ''old'')\<lparr>path := ''/api/products''\<rparr>)"
    using expired_and_invalid_tokens [where req = "(bearer_request ''old'')\<lparr>path := ''/api/products''\<rparr>"
        and token = "''old''"
        and verify = demo_verify and errName = "''TokenExpiredError''" and routes = ROUTE_MAPPINGS
        and mapping = "ROUTE_MAPPINGS ! 1"]
    by (simp add: bearer_request_def ROUTE_MAPPINGS_def startsWith_def)
  have d: "conditionalAuth demo_verify ROUTE_MAPPINGS ((bearer_request ''old'')\<lparr>path := ''/other''\<rparr>)
       = optionalAuth demo_verify ((bearer_request ''old'')\<lparr>path := ''/other''\<rparr>)"
    using expired_and_invalid_tokens [where req = "(bearer_request ''old'')\<lparr>path := ''/other''\<rparr>"
        and token = "''old''"
        and verify = demo_verify and errName = "''TokenExpiredError''" and routes = ROUTE_MAPPINGS
        and mapping = "ROUTE_MAPPINGS ! 1"]
    by (simp add: bearer_request_def ROUTE_MAPPINGS_def startsWith_def)
  from a b c d show ?thesis by blast
qed

section \<open>Properties of the rate limiter\<close>

lemma ceil_aux1: "(m::int) < 1000 \<Longrightarrow> 1000 * (- q - 1) < - (1000 * q + m)"
  by (simp add: algebra_simps)

lemma ceil_aux2: "0 \<le> (m::int) \<Longrightarrow> - (1000 * q + m) \<le> 1000 * - q"
  by (simp add: algebra_simps)

lemma ceilDiv1000_bounds: "1000 * (ceilDiv1000 d - 1) < d \<and> d \<le> 1000 * ceilDiv1000 d"
proof -
  define q where "q = (- d) div 1000"
  define m where "m = (- d) mod 1000"
  have "- d = 1000 * q + m" and m: "0 \<le> m" "m < 1000"
    by (simp_all add: q_def m_def)
  then have d: "d = - (1000 * q + m)" by simp
  have c: "ceilDiv1000 d = - q"
    by (simp add: ceilDiv1000_def q_def)
  from ceil_aux1 [OF m(2), of q] ceil_aux2 [OF m(1), of q]
  show ?thesis unfolding c by (simp only: d [symmetric])
qed

lemma limiter_fresh:
  "windowOver st (getClientIdentifier req) now \<Longrightarrow>
   store (createRateLimiter windowMs max' st now req) (getClientIdentifier req)
     = Some \<lparr>count = 1, resetTime = now + windowMs\<rparr>"
  by (simp add: createRateLimiter_def windowOver_def Let_def split: option.splits)

lemma limiter_counted:
  "st (getClientIdentifier req) = Some e \<Longrightarrow> \<not> now > resetTime e \<Longrightarrow>
   store (createRateLimiter windowMs max' st now req) (getClientIdentifier req)
     = Some \<lparr>count = count e + 1, resetTime = resetTime e\<rparr>"
  by (simp add: createRateLimiter_def Let_def)

lemma limiter_other_keys:
  "k' \<noteq> getClientIdentifier req \<Longrightarrow> store (createRateLimiter windowMs max' st now req) k' = st k'"
  by (simp add: createRateLimiter_def Let_def)

lemma limiter_answer:
  assumes "store (createRateLimiter windowMs max' st now req) (getClientIdentifier req) = Some e'"
  shows "hdr_limit (createRateLimiter windowMs max' st now req) = max'"
    and "hdr_remaining (createRateLimiter windowMs max' st now req) = max 0 (max' - count e')"
    and "hdr_reset (createRateLimiter windowMs max' st now req) = resetTime e'"
    and "rejection (createRateLimiter windowMs max' st now req) =
          (if count e' > max' then
             Some \<lparr>res_status = 429,
                   res_body = JsonRetry ''Too many requests'' ''Rate limit exceeded''
                                (ceilDiv1000 (resetTime e' - now)),
                   res_headers = []\<rparr>
           else None)"
  using assms by (auto simp: createRateLimiter_def Let_def)

lemma limitEach_in_window:
  assumes "st k = Some e"
    and "\<forall>(t, rq) \<in> set reqs. getClientIdentifier rq = k \<and> t \<le> resetTime e"
    and "i < length reqs"
  shows "store (limitEach windowMs max' st reqs ! i) k
           = Some \<lparr>count = count e + int i + 1, resetTime = resetTime e\<rparr>
       \<and> (rejection (limitEach windowMs max' st reqs ! i) \<noteq> None \<longleftrightarrow> count e + int i + 1 > max')"
  using assms
proof (induction reqs arbitrary: st e i)
  case Nil
  then show ?case by simp
next
  case (Cons a reqs)
  obtain t rq where a: "a = (t, rq)" by (cases a)
  from Cons.prems a have k: "getClientIdentifier rq = k" and t: "\<not> t > resetTime e" by auto
  let ?r = "createRateLimiter windowMs max' st t rq"
  have st': "store ?r k = Some \<lparr>count = count e + 1, resetTime = resetTime e\<rparr>"
    using limiter_counted [of st rq e t windowMs max'] Cons.prems(1) k t by simp
  show ?case
  proof (cases i)
    case 0
    with a st' k limiter_answer(4) [of windowMs max' st t rq "\<lparr>count = count e + 1, resetTime = resetTime e\<rparr>"]
    show ?thesis by (simp add: Let_def)
  next
    case (Suc j)
    with Cons.prems have j: "j < length reqs" by simp
    from Cons.prems(2) have "\<forall>(t, rq) \<in> set reqs. getClientIdentifier rq = k
        \<and> t \<le> resetTime \<lparr>count = count e + 1, resetTime = resetTime e\<rparr>"
      by auto
    from Cons.IH [of "store ?r" "\<lparr>count = count e + 1, resetTime = resetTime e\<rparr>" j, OF st' this j]
      Suc a show ?thesis
      by (simp add: Let_def add.assoc)
  qed
qed

lemma limitEach_window:
  assumes "windowOver st k t1" and "getClientIdentifier r1 = k"
    and "\<forall>(t, rq) \<in> set rest. getClientIdentifier rq = k \<and> t \<le> t1 + windowMs"
    and "i < length ((t1, r1) # rest)"
  shows "store (limitEach windowMs max' st ((t1, r1) # rest) ! i) k
           = Some \<lparr>count = int i + 1, resetTime = t1 + windowMs\<rparr>
       \<and> (rejection (limitEach windowMs max' st ((t1, r1) # rest) ! i) \<noteq> None \<longleftrightarrow> int i + 1 > max')"
proof -
  let ?r = "createRateLimiter windowMs max' st t1 r1"
  have st': "store ?r k = Some \<lparr>count = 1, resetTime = t1 + windowMs\<rparr>"
    using limiter_fresh [of st r1 t1 windowMs max'] assms(1,2) by simp
  show ?thesis
  proof (cases i)
    case 0
    with st' assms(2) limiter_answer(4) [of windowMs max' st t1 r1 "\<lparr>count = 1, resetTime = t1 + windowMs\<rparr>"]
    show ?thesis by (simp add: Let_def)
  next
    case (Suc j)
    with assms(4) have j: "j < length rest" by simp
    from assms(3) have "\<forall>(t, rq) \<in> set rest. getClientIdentifier rq = k
        \<and> t \<le> resetTime \<lparr>count = 1, resetTime = t1 + windowMs\<rparr>"
      by auto
    from limitEach_in_window [where st = "store ?r" and k = k
        and e = "\<lparr>count = 1, resetTime = t1 + windowMs\<rparr>" and reqs = rest and i = j
        and windowMs = windowMs and max' = max', OF st' this j] Suc show ?thesis
      by (simp add: Let_def)
  qed
qed

lemma rateLimiter_agrees:
  "store (rateLimiter st now req) = store (createRateLimiter rateLimit_windowMs rateLimit_max st now req)
   \<and> hdr_limit (rateLimiter st now req) = hdr_limit (createRateLimiter rateLimit_windowMs rateLimit_max st now req)
   \<and> hdr_remaining (rateLimiter st now req) = hdr_remaining (createRateLimiter rateLimit_windowMs rateLimit_max st now req)
   \<and> hdr_reset (rateLimiter st now req) = hdr_reset (createRateLimiter rateLimit_windowMs rateLimit_max st now req)
   \<and> map_option res_status (rejection (rateLimiter st now req))
       = map_option res_status (rejection (createRateLimiter rateLimit_windowMs rateLimit_max st now req))
   \<and> map_option retryAfter (rejection (rateLimiter st now req))
       = map_option retryAfter (rejection (createRateLimiter rateLimit_windowMs rateLimit_max st now req))"
  by (simp add: rateLimiter_def createRateLimiter_def Let_def retryAfter_def)

lemma length_limitEach: "length (limitEach windowMs max' st reqs) = length reqs"
  by (induction reqs arbitrary: st) (auto simp: Let_def)

text \<open>
  Claim C3, amended. For every client key, window and maximum, the limiter created by
  \<^verbatim>\<open>createRateLimiter\<close> follows the fixed-window algorithm: when the key has no
  entry, or the time is past the entry's reset time, the entry becomes a fresh one with
  count 1 (0, then incremented) and reset time \<open>now + windowMs\<close>; otherwise its
  count is incremented and its reset time kept; no other key changes. The three headers
  carry the maximum, \<open>max 0 (max' - count)\<close> and the reset time, whether the
  request is rejected or not. The request is rejected, with status 429, exactly when the
  count exceeds the maximum, and \<^verbatim>\<open>retryAfter\<close> is then the ceiling of
  \<open>(resetTime - now) / 1000\<close>, that is the integer \<open>n\<close> with
  \<open>1000 * (n - 1) < resetTime - now \<le> 1000 * n\<close>. The global \<^verbatim>\<open>rateLimiter\<close>
  does the same with the window and the maximum of the configuration. Consequently,
  when requests of one client follow one that opened a window and all come within it,
  the \<open>(i+1)\<close>-th has count \<open>i + 1\<close> and is rejected exactly when
  \<open>i + 1 > max'\<close>, so the \<open>(max'+1)\<close>-th is rejected; and the first request
  after the window is over has a fresh count of 1 and is allowed exactly when
  \<open>max' \<ge> 1\<close>.
\<close>

theorem fixed_window_limiter:
  fixes windowMs max' now start :: int and st :: "string \<Rightarrow> RateLimitEntry option"
    and req first :: Request and rest :: "(int \<times> Request) list"
  defines "k \<equiv> getClientIdentifier req"
  defines "r \<equiv> createRateLimiter windowMs max' st now req"
  defines "rs \<equiv> limitEach windowMs max' st ((start, first) # rest)"
  shows "(windowOver st k now \<longrightarrow> store r k = Some \<lparr>count = 1, resetTime = now + windowMs\<rparr>)
    \<and> (st k = Some e \<and> \<not> now > resetTime e \<longrightarrow>
          store r k = Some \<lparr>count = count e + 1, resetTime = resetTime e\<rparr>)
    \<and> (k' \<noteq> k \<longrightarrow> store r k' = st k')
    \<and> (store r k = Some e' \<longrightarrow>
          hdr_limit r = max' \<and> hdr_remaining r = max 0 (max' - count e') \<and> hdr_reset r = resetTime e'
          \<and> (rejection r \<noteq> None \<longleftrightarrow> count e' > max')
          \<and> (count e' > max' \<longrightarrow>
                map_option res_status (rejection r) = Some 429
                \<and> map_option retryAfter (rejection r) = Some (Some (ceilDiv1000 (resetTime e' - now)))))
    \<and> 1000 * (ceilDiv1000 d - 1) < d \<and> d \<le> 1000 * ceilDiv1000 d
    \<and> store (rateLimiter st now req) = store (createRateLimiter rateLimit_windowMs rateLimit_max st now req)
    \<and> hdr_limit (rateLimiter st now req) = rateLimit_max
    \<and> hdr_remaining (rateLimiter st now req)
        = hdr_remaining (createRateLimiter rateLimit_windowMs rateLimit_max st now req)
    \<and> hdr_reset (rateLimiter st now req)
        = hdr_reset (createRateLimiter rateLimit_windowMs rateLimit_max st now req)
    \<and> map_option res_status (rejection (rateLimiter st now req))
        = map_option res_status (rejection (createRateLimiter rateLimit_windowMs rateLimit_max st now req))
    \<and> map_option retryAfter (rejection (rateLimiter st now req))
        = map_option retryAfter (rejection (createRateLimiter rateLimit_windowMs rateLimit_max st now req))
    \<and> (windowOver st k start \<and> getClientIdentifier first = k
          \<and> (\<forall>(t, rq) \<in> set rest. getClientIdentifier rq = k \<and> t \<le> start + windowMs)
          \<and> i < length rs \<longrightarrow>
          store (rs ! i) k = Some \<lparr>count = int i + 1, resetTime = start + windowMs\<rparr>
          \<and> (rejection (rs ! i) \<noteq> None \<longleftrightarrow> int i + 1 > max'))
    \<and> (st k = Some e \<and> now > resetTime e \<longrightarrow>
          store r k = Some \<lparr>count = 1, resetTime = now + windowMs\<rparr>
          \<and> (rejection r = None \<longleftrightarrow> 1 \<le> max'))"
proof -
  have a: "windowOver st k now \<longrightarrow> store r k = Some \<lparr>count = 1, resetTime = now + windowMs\<rparr>"
    unfolding k_def r_def by (simp add: limiter_fresh)
  have b: "st k = Some e \<and> \<not> now > resetTime e \<longrightarrow>
          store r k = Some \<lparr>count = count e + 1, resetTime = resetTime e\<rparr>"
    unfolding k_def r_def by (simp add: limiter_counted)
  have c: "k' \<noteq> k \<longrightarrow> store r k' = st k'"
    unfolding k_def r_def by (simp add: limiter_other_keys)
  have d: "hdr_limit r = max' \<and> hdr_remaining r = max 0 (max' - count e') \<and> hdr_reset r = resetTime e'
          \<and> (rejection r \<noteq> None \<longleftrightarrow> count e' > max')
          \<and> (count e' > max' \<longrightarrow>
                map_option res_status (rejection r) = Some 429
                \<and> map_option retryAfter (rejection r) = Some (Some (ceilDiv1000 (resetTime e' - now))))"
    if "store r k = Some e'" for e'
    using limiter_answer [OF that [unfolded k_def r_def]]
    by (simp add: r_def retryAfter_def)
  have g: "hdr_limit (rateLimiter st now req) = rateLimit_max"
    by (simp add: rateLimiter_def Let_def)
  have h: "store (rs ! i) k = Some \<lparr>count = int i + 1, resetTime = start + windowMs\<rparr>
          \<and> (rejection (rs ! i) \<noteq> None \<longleftrightarrow> int i + 1 > max')"
    if "windowOver st k start" "getClientIdentifier first = k"
      "\<forall>(t, rq) \<in> set rest. getClientIdentifier rq = k \<and> t \<le> start + windowMs" "i < length rs"
  proof -
    from that(4) have "i < length ((start, first) # rest)"
      unfolding rs_def length_limitEach .
    from limitEach_window [OF that(1-3) this, of max'] show ?thesis
      by (simp add: rs_def)
  qed
  have j: "store r k = Some \<lparr>count = 1, resetTime = now + windowMs\<rparr>
          \<and> (rejection r = None \<longleftrightarrow> 1 \<le> max')"
    if "st k = Some e" "now > resetTime e"
  proof -
    from that have "windowOver st k now" by (simp add: windowOver_def)
    with a have s: "store r k = Some \<lparr>count = 1, resetTime = now + windowMs\<rparr>" by simp
    from d [OF s] have "rejection r \<noteq> None \<longleftrightarrow> 1 > max'" by simp
    with s show ?thesis by auto
  qed
  from a b c d [of e'] g h j ceilDiv1000_bounds [of d] rateLimiter_agrees [of st now req]
  show ?thesis by blast
qed

lemma order_request_key: "getClientIdentifier order_request = ''ip:10.0.0.9''"
  by (simp add: getClientIdentifier_def order_request_def js_or_def js_or_str_def)

text \<open>
  Claim C3 as stated fails for a maximum of 0: the first request after the window is
  over gets a fresh count of 1 and is rejected.
\<close>

theorem zero_limit_rejects_after_window:
  "store (createRateLimiter 60000 0 [''ip:10.0.0.9'' \<mapsto> \<lparr>count = 1, resetTime = 60000\<rparr>]
            60001 order_request) ''ip:10.0.0.9''
     = Some \<lparr>count = 1, resetTime = 120001\<rparr>
   \<and> rejection (createRateLimiter 60000 0 [''ip:10.0.0.9'' \<mapsto> \<lparr>count = 1, resetTime = 60000\<rparr>]
            60001 order_request)
     = Some \<lparr>res_status = 429,
              res_body = JsonRetry ''Too many requests'' ''Rate limit exceeded'' 60,
              res_headers = []\<rparr>"
  by (simp add: createRateLimiter_def order_request_key ceilDiv1000_def Let_def)

theorem fixed_window_limiter_witness:
  "store (limitEach 60000 2 (\<lambda>k. None)
            [(0, order_request), (10, order_request), (20, order_request)] ! 2) ''ip:10.0.0.9''
     = Some \<lparr>count = 3, resetTime = 60000\<rparr>
   \<and> rejection (limitEach 60000 2 (\<lambda>k. None)
            [(0, order_request), (10, order_request), (20, order_request)] ! 2) \<noteq> None
   \<and> rejection (limitEach 60000 2 (\<lambda>k. None)
            [(0, order_request), (10, order_request), (20, order_request)] ! 1) = None
   \<and> store (createRateLimiter 60000 2 [''ip:10.0.0.9'' \<mapsto> \<lparr>count = 3, resetTime = 60000\<rparr>]
            60001 order_request) ''ip:10.0.0.9''
     = Some \<lparr>count = 1, resetTime = 120001\<rparr>
   \<and> rejection (createRateLimiter 60000 2 [''ip:10.0.0.9'' \<mapsto> \<lparr>count = 3, resetTime = 60000\<rparr>]
            60001 order_request) = None"
proof -
  let ?reqs = "[(10, order_request), (20, order_request)]"
  let ?old = "[''ip:10.0.0.9'' \<mapsto> \<lparr>count = 3, resetTime = 60000\<rparr>]"
  have third: "store (limitEach 60000 2 (\<lambda>k. None) ((0, order_request) # ?reqs) ! 2) ''ip:10.0.0.9''
     = Some \<lparr>count = 3, resetTime = 60000\<rparr>
     \<and> rejection (limitEach 60000 2 (\<lambda>k. None) ((0, order_request) # ?reqs) ! 2) \<noteq> None"
    using fixed_window_limiter [where windowMs = 60000 and max' = 2 and st = "\<lambda>k. None"
        and req = order_request and now = 0 and start = 0 and first = order_request and rest = ?reqs
        and i = 2 and e = "\<lparr>count = 3, resetTime = 60000\<rparr>" and e' = "\<lparr>count = 3, resetTime = 60000\<rparr>"
        and k' = "''x''" and d = 0]
    by (simp add: order_request_key windowOver_def length_limitEach del: limitEach.simps)
  have second: "rejection (limitEach 60000 2 (\<lambda>k. None) ((0, order_request) # ?reqs) ! 1) = None"
    using fixed_window_limiter [where windowMs = 60000 and max' = 2 and st = "\<lambda>k. None"
        and req = order_request and now = 0 and start = 0 and first = order_request and rest = ?reqs
        and i = 1 and e = "\<lparr>count = 3, resetTime = 60000\<rparr>" and e' = "\<lparr>count = 3, resetTime = 60000\<rparr>"
        and k' = "''x''" and d = 0]
    by (simp add: order_request_key windowOver_def length_limitEach del: limitEach.simps)
  have after: "store (createRateLimiter 60000 2 ?old 60001 order_request) ''ip:10.0.0.9''
       = Some \<lparr>count = 1, resetTime = 120001\<rparr>
     \<and> rejection (createRateLimiter 60000 2 ?old 60001 order_request) = None"
    using fixed_window_limiter [where windowMs = 60000 and max' = 2 and st = ?old
        and req = order_request and now = 60001 and start = 0 and first = order_request and rest = "[]"
        and i = 0 and e = "\<lparr>count = 3, resetTime = 60000\<rparr>" and e' = "\<lparr>count = 3, resetTime = 60000\<rparr>"
        and k' = "''x''" and d = 0]
    by (simp add: order_request_key)
  from third second after show ?thesis by blast
qed

section \<open>Identity headers and the client key\<close>

text \<open>
  The key of the limiter is decided by the headers alone: \<open>user:\<close> and the value of
  \<^verbatim>\<open>x-user-id\<close> when that header is present and not empty, whoever set it;
  otherwise \<open>ip:\<close> and the forwarded-for header, the socket address, or
  \<open>unknown\<close>, the first of them that is present and not empty.
\<close>

lemma getClientIdentifier_cases:
  "getClientIdentifier req =
     (case headers req ''x-user-id'' of
        Some (c # cs) \<Rightarrow> ''user:'' @ c # cs
      | _ \<Rightarrow>
        (case headers req ''x-forwarded-for'' of
           Some (c # cs) \<Rightarrow> ''ip:'' @ c # cs
         | _ \<Rightarrow>
           (case remoteAddress req of
              Some (c # cs) \<Rightarrow> ''ip:'' @ c # cs
            | _ \<Rightarrow> ''ip:unknown'')))"
  by (simp add: getClientIdentifier_def js_or_def js_or_str_def Let_def
      split: option.splits list.splits)

text \<open>
  When verification succeeds, both modes attach the identity and overwrite the two
  identity headers with the fields of the token's payload (a field that the payload
  lacks leaves its header unset), and the outbound call carries them. In
  required mode a request without a verified token is answered and goes no further.
\<close>

lemma verified_identity_overwrites:
  assumes "headers req ''authorization'' = Some (''Bearer '' @ token)" "token \<noteq> []"
    "verify token = Decoded d"
  shows "authenticateRequest verify req = optionalAuth verify req"
    and "optionalAuth verify req =
           Next (req\<lparr>user := Some \<lparr>uid = uid d, email = email d\<rparr>,
                     headers := (headers req)(''x-user-id'' := uid d, ''x-user-email'' := email d)\<rparr>)"
    and "outboundHeaders ((headers req)(''x-user-id'' := uid d, ''x-user-email'' := email d)) ''x-user-id''
           = uid d"
    and "outboundHeaders ((headers req)(''x-user-id'' := uid d, ''x-user-email'' := email d)) ''x-user-email''
           = email d"
  using assms
  by (simp_all add: authenticateRequest_def optionalAuth_def startsWith_def outboundHeaders_def Let_def)

lemma required_mode_never_forwards_unverified:
  "(\<forall>d. \<not> (truthy (headers req ''authorization'')
         \<and> startsWith (the (headers req ''authorization'')) ''Bearer ''
         \<and> verify (drop 7 (the (headers req ''authorization''))) = Decoded d)) \<Longrightarrow>
   \<exists>res. authenticateRequest verify req = Respond res"
  by (auto simp: authenticateRequest_def Let_def split: verified.splits)

lemma products_route:
  "find (\<lambda>m. startsWith ''/api/products'' (prefix m)) ROUTE_MAPPINGS = Some (ROUTE_MAPPINGS ! 1)"
  by (simp add: ROUTE_MAPPINGS_def startsWith_def)

lemma products_resolved:
  "resolve ROUTE_MAPPINGS (initializeServices 0 SERVICES) ''/api/products''
     = Resolved (ROUTE_MAPPINGS ! 1) (SERVICES ! 1) ''/api/products''"
  by (simp add: resolve_def ROUTE_MAPPINGS_def startsWith_def initializeServices_def
        SERVICES_def getService_def map_get_def)

text \<open>
  Claim C1 as stated fails. A request for a route that does not require auth comes
  without an Authorization header and with \<^verbatim>\<open>x-user-id\<close> and \<^verbatim>\<open>x-user-email\<close>
  set by the client. \<^verbatim>\<open>conditionalAuth\<close> passes it on unchanged, and the one
  outbound call carries both headers with the client's values. The same happens when
  the request carries a bearer token that fails verification.
\<close>

theorem client_identity_headers_forwarded:
  "user spoof_request = None
   \<and> headers spoof_request ''authorization'' = None
   \<and> conditionalAuth demo_verify ROUTE_MAPPINGS spoof_request = Next spoof_request
   \<and> map (sentHeader ''x-user-id'')
        (outbound (served (apiPipeline demo_verify ROUTE_MAPPINGS (initializeServices 0 SERVICES)
           (answering 200) (\<lambda>k. None) 0 spoof_request))) = [Some ''admin'']
   \<and> map (sentHeader ''x-user-email'')
        (outbound (served (apiPipeline demo_verify ROUTE_MAPPINGS (initializeServices 0 SERVICES)
           (answering 200) (\<lambda>k. None) 0 spoof_request))) = [Some ''admin@example.com'']
   \<and> demo_verify ''garbage'' = Throws ''JsonWebTokenError''
   \<and> map (sentHeader ''x-user-id'')
        (outbound (served (apiPipeline demo_verify ROUTE_MAPPINGS (initializeServices 0 SERVICES)
           (answering 200) (\<lambda>k. None) 0
           (spoof_request\<lparr>headers := (headers spoof_request)(''authorization'' \<mapsto> ''Bearer garbage'')\<rparr>))))
       = [Some ''admin'']"
proof -
  have auth: "conditionalAuth demo_verify ROUTE_MAPPINGS spoof_request = Next spoof_request"
    by (simp add: conditionalAuth_def optionalAuth_def spoof_request_def
        ROUTE_MAPPINGS_def startsWith_def)
  let ?bad = "spoof_request\<lparr>headers := (headers spoof_request)(''authorization'' \<mapsto> ''Bearer garbage'')\<rparr>"
  have auth': "conditionalAuth demo_verify ROUTE_MAPPINGS ?bad = Next ?bad"
    by (simp add: conditionalAuth_def optionalAuth_def spoof_request_def
        ROUTE_MAPPINGS_def startsWith_def demo_verify_def)
  have lim: "rejection (rateLimiter (\<lambda>k. None) 0 req) = None" for req
    by (simp add: rateLimiter_def rateLimit_max_def Let_def)
  have fwd: "outbound (proxyRequest ROUTE_MAPPINGS (initializeServices 0 SERVICES) (answering 200) req)
      = [Sent \<lparr>cfg_method = httpMethod req, cfg_url = ''http://localhost:3000/api/products'',
               cfg_data = body req, cfg_headers = outboundHeaders (headers req),
               cfg_timeout = 5000, cfg_maxRedirects = 5\<rparr>]"
    if "path req = ''/api/products''" for req
    using that
    apply (simp add: proxyRequest_def products_resolved Let_def)
    apply (simp add: forwardRequest_def attemptFrom_resolved axios_def answering_def SERVICES_def)
    done
  have ps: "path spoof_request = ''/api/products''" "path ?bad = ''/api/products''"
    by (simp_all add: spoof_request_def)
  have p1: "served (apiPipeline demo_verify ROUTE_MAPPINGS (initializeServices 0 SERVICES)
           (answering 200) (\<lambda>k. None) 0 spoof_request)
        = proxyRequest ROUTE_MAPPINGS (initializeServices 0 SERVICES) (answering 200) spoof_request"
    by (simp only: apiPipeline_def Let_def lim auth Served.simps option.case handled.case)
  have p2: "served (apiPipeline demo_verify ROUTE_MAPPINGS (initializeServices 0 SERVICES)
           (answering 200) (\<lambda>k. None) 0 ?bad)
        = proxyRequest ROUTE_MAPPINGS (initializeServices 0 SERVICES) (answering 200) ?bad"
    by (simp only: apiPipeline_def Let_def lim auth' Served.simps option.case handled.case)
  have h1: "map (sentHeader ''x-user-id'')
        (outbound (served (apiPipeline demo_verify ROUTE_MAPPINGS (initializeServices 0 SERVICES)
           (answering 200) (\<lambda>k. None) 0 spoof_request))) = [Some ''admin'']"
    apply (simp only: p1 fwd [OF ps(1)])
    apply (simp add: sentHeader_def outboundHeaders_def spoof_request_def)
    done
  have h2: "map (sentHeader ''x-user-email'')
        (outbound (served (apiPipeline demo_verify ROUTE_MAPPINGS (initializeServices 0 SERVICES)
           (answering 200) (\<lambda>k. None) 0 spoof_request))) = [Some ''admin@example.com'']"
    apply (simp only: p1 fwd [OF ps(1)])
    apply (simp add: sentHeader_def outboundHeaders_def spoof_request_def)
    done
  have h3: "map (sentHeader ''x-user-id'')
        (outbound (served (apiPipeline demo_verify ROUTE_MAPPINGS (initializeServices 0 SERVICES)
           (answering 200) (\<lambda>k. None) 0 ?bad))) = [Some ''admin'']"
    apply (simp only: p2 fwd [OF ps(2)])
    apply (simp add: sentHeader_def outboundHeaders_def spoof_request_def)
    done
  have u: "user spoof_request = None" "headers spoof_request ''authorization'' = None"
    "demo_verify ''garbage'' = Throws ''JsonWebTokenError''"
    by (simp_all add: spoof_request_def demo_verify_def)
  from u auth h1 h2 h3 show ?thesis by blast
qed

text \<open>
  Claim C4, at two failing inputs. The request above, for which nothing was verified,
  is counted under \<open>user:admin\<close>. A request with a good token and no identity
  header is counted under the \<open>ip:\<close> key of its forwarded-for header, although
  \<^verbatim>\<open>conditionalAuth\<close> then verifies the token and attaches the user: the limiter
  runs before the auth gate.
\<close>

theorem unverified_user_key:
  "headers spoof_request ''authorization'' = None
   \<and> getClientIdentifier spoof_request = ''user:admin''
   \<and> served_key (apiPipeline demo_verify ROUTE_MAPPINGS (initializeServices 0 SERVICES)
        (answering 200) (\<lambda>k. None) 0 spoof_request) = ''user:admin''
   \<and> served_store (apiPipeline demo_verify ROUTE_MAPPINGS (initializeServices 0 SERVICES)
        (answering 200) (\<lambda>k. None) 0 spoof_request) ''user:admin''
       = Some \<lparr>count = 1, resetTime = 900000\<rparr>
   \<and> conditionalAuth demo_verify ROUTE_MAPPINGS token_request
       = Next (token_request\<lparr>user := Some \<lparr>uid = Some ''u42'', email = Some ''ann@example.com''\<rparr>,
                 headers := (headers token_request)
                   (''x-user-id'' \<mapsto> ''u42'', ''x-user-email'' \<mapsto> ''ann@example.com'')\<rparr>)
   \<and> served_key (apiPipeline demo_verify ROUTE_MAPPINGS (initializeServices 0 SERVICES)
        (answering 200) (\<lambda>k. None) 0 token_request) = ''ip:203.0.113.7''"
  by (simp add: apiPipeline_def getClientIdentifier_cases rateLimiter_def rateLimit_windowMs_def
      rateLimit_max_def conditionalAuth_def optionalAuth_def ROUTE_MAPPINGS_def
      demo_verify_def startsWith_def spoof_request_def token_request_def Let_def)

lemma attemptFrom_sent:
  "Sent c \<in> set (events (attemptFrom call config retries' attempt lastError)) \<Longrightarrow> c = config"
proof (induction call config retries' attempt lastError rule: attemptFrom.induct)
  case (1 call config retries' attempt lastError)
  show ?case
  proof (cases "attempt \<le> retries'")
    case False
    with "1.prems" show ?thesis by (simp add: attemptFrom_over)
  next
    case le: True
    show ?thesis
    proof (cases "call attempt")
      case (Inr r)
      with le "1.prems" show ?thesis by (simp add: attemptFrom_resolved)
    next
      case (Inl e)
      show ?thesis
      proof (cases "carries4xx e")
        case True
        with le Inl "1.prems" show ?thesis by (simp add: attemptFrom_4xx)
      next
        case False
        with le Inl "1.prems"
        have "c = config \<or> Sent c \<in> set (events (attemptFrom call config retries' (Suc attempt) (Some e)))"
          by (auto simp: attemptFrom_retry split: if_splits)
        moreover have "Sent c \<in> set (events (attemptFrom call config retries' (Suc attempt) (Some e)))
              \<Longrightarrow> c = config"
          using "1.IH" [OF le Inl] False by (simp add: carries4xx_def)
        ultimately show ?thesis by blast
      qed
    qed
  qed
qed

lemma forwardRequest_sent:
  fixes backend :: "nat \<Rightarrow> upstream"
  shows "Sent c \<in> set (events (forwardRequest backend targetUrl httpMethod' path' body' headers' timeout' retries'))
   \<Longrightarrow> cfg_headers c = outboundHeaders headers'"
  unfolding forwardRequest_def Let_def by (drule attemptFrom_sent) simp

lemma outboundHeaders_identity:
  "outboundHeaders h ''x-user-id'' = h ''x-user-id''"
  "outboundHeaders h ''x-user-email'' = h ''x-user-email''"
  by (simp_all add: outboundHeaders_def)

lemma proxyRequest_sent:
  assumes "Sent c \<in> set (outbound (proxyRequest routes reg pw req))"
  shows "cfg_headers c ''x-user-id'' = headers req ''x-user-id''
       \<and> cfg_headers c ''x-user-email'' = headers req ''x-user-email''"
proof (cases "resolve routes reg (path req)")
  case RouteNotFound
  with assms show ?thesis by (simp add: proxyRequest_def)
next
  case (ServiceNotRegistered n)
  with assms show ?thesis by (simp add: proxyRequest_def)
next
  case (Resolved mapping service' targetPath)
  let ?fwd = "forwardRequest (backend pw) (url service') (httpMethod req) targetPath
                (body req) (headers req) (timeout service') (retries service')"
  from assms Resolved have "Sent c \<in> set (events ?fwd)"
    by (simp add: proxyRequest_def Let_def split: sum.splits option.splits)
  from forwardRequest_sent [OF this] show ?thesis
    by (simp add: outboundHeaders_identity)
qed

lemma optionalAuth_identity:
  "optionalAuth verify req =
     Next (case bearerIdentity verify req of None \<Rightarrow> req | Some d \<Rightarrow> withIdentity req d)"
  by (cases "headers req ''authorization''")
     (simp_all add: optionalAuth_def bearerIdentity_def withIdentity_def Let_def split: verified.splits)

lemma authenticateRequest_identity:
  "authenticateRequest verify req = Next req' \<Longrightarrow>
     \<exists>d. bearerIdentity verify req = Some d \<and> req' = withIdentity req d"
  by (cases "headers req ''authorization''")
     (auto simp: authenticateRequest_def bearerIdentity_def withIdentity_def Let_def
        split: verified.splits if_splits)

lemma conditionalAuth_identity:
  "conditionalAuth verify routes req = Next req' \<Longrightarrow>
     req' = (case bearerIdentity verify req of None \<Rightarrow> req | Some d \<Rightarrow> withIdentity req d)"
  by (auto simp: conditionalAuth_def optionalAuth_identity dest: authenticateRequest_identity
      split: option.splits if_splits)

lemma required_unverified_rejected:
  "bearerIdentity verify req = None \<Longrightarrow> \<exists>res. authenticateRequest verify req = Respond res"
  by (cases "authenticateRequest verify req") (auto dest: authenticateRequest_identity)

lemma products_forwarded:
  "path req = ''/api/products'' \<Longrightarrow>
   outbound (proxyRequest ROUTE_MAPPINGS (initializeServices 0 SERVICES) (answering 200) req)
      = [Sent \<lparr>cfg_method = httpMethod req, cfg_url = ''http://localhost:3000/api/products'',
               cfg_data = body req, cfg_headers = outboundHeaders (headers req),
               cfg_timeout = 5000, cfg_maxRedirects = 5\<rparr>]"
  apply (simp add: proxyRequest_def products_resolved Let_def)
  apply (simp add: forwardRequest_def attemptFrom_resolved axios_def answering_def SERVICES_def)
  done

text \<open>
  Claim C1, amended. Every outbound call that the pipeline makes for a request carries
  the identity headers of the request as the auth gate left it. When a bearer token was
  verified during the request, \<^verbatim>\<open>x-user-id\<close> and \<^verbatim>\<open>x-user-email\<close> are the
  \<^verbatim>\<open>id\<close> and the \<^verbatim>\<open>email\<close> of the token's payload, whatever the client had
  sent under these names; a header whose field the payload lacks is not sent at all.
  When none was (the Authorization header is absent, malformed or fails verification), the
  two headers are forwarded as they came in, present or not. In required mode such a
  request is answered by the auth gate and no outbound call is made; in optional mode
  it goes on unchanged.
\<close>

theorem outbound_identity_headers:
  "(Sent c \<in> set (outbound (served (apiPipeline verify routes reg pw st now req))) \<longrightarrow>
      (case bearerIdentity verify req of
         Some d \<Rightarrow> cfg_headers c ''x-user-id'' = uid d
                   \<and> cfg_headers c ''x-user-email'' = email d
       | None \<Rightarrow> cfg_headers c ''x-user-id'' = headers req ''x-user-id''
                \<and> cfg_headers c ''x-user-email'' = headers req ''x-user-email''))
   \<and> (find (\<lambda>m. startsWith (path req) (prefix m)) routes = Some mapping \<and> authRequired mapping
        \<and> bearerIdentity verify req = None \<longrightarrow>
        outbound (served (apiPipeline verify routes reg pw st now req)) = [])
   \<and> optionalAuth verify req =
        Next (case bearerIdentity verify req of None \<Rightarrow> req | Some d \<Rightarrow> withIdentity req d)
   \<and> (bearerIdentity verify req = None \<longrightarrow> (\<exists>res. authenticateRequest verify req = Respond res))"
proof -
  let ?out = "outbound (served (apiPipeline verify routes reg pw st now req))"
  have a: "case bearerIdentity verify req of
         Some d \<Rightarrow> cfg_headers c ''x-user-id'' = uid d
                   \<and> cfg_headers c ''x-user-email'' = email d
       | None \<Rightarrow> cfg_headers c ''x-user-id'' = headers req ''x-user-id''
                \<and> cfg_headers c ''x-user-email'' = headers req ''x-user-email''"
    if sent: "Sent c \<in> set ?out"
  proof (cases "rejection (rateLimiter st now req)")
    case (Some res)
    with sent show ?thesis by (simp add: apiPipeline_def Let_def)
  next
    case None
    show ?thesis
    proof (cases "conditionalAuth verify routes req")
      case (Respond res)
      with sent None show ?thesis by (simp add: apiPipeline_def Let_def)
    next
      case (Next req')
      with sent None have "Sent c \<in> set (outbound (proxyRequest routes reg pw req'))"
        by (simp add: apiPipeline_def Let_def)
      from proxyRequest_sent [OF this] conditionalAuth_identity [OF Next]
      show ?thesis
        by (simp add: withIdentity_def split: option.splits)
    qed
  qed
  have b: "?out = []"
    if "find (\<lambda>m. startsWith (path req) (prefix m)) routes = Some mapping" "authRequired mapping"
      "bearerIdentity verify req = None"
  proof -
    from required_unverified_rejected [OF that(3)] obtain res
      where "authenticateRequest verify req = Respond res" by blast
    with that(1,2) have "conditionalAuth verify routes req = Respond res"
      by (simp add: conditionalAuth_def)
    then show ?thesis
      by (simp add: apiPipeline_def Let_def split: option.splits)
  qed
  from a b optionalAuth_identity [of verify req] required_unverified_rejected [of verify req]
  show ?thesis by blast
qed

theorem outbound_identity_headers_witness:
  "bearerIdentity demo_verify token_request = Some \<lparr>uid = Some ''u42'', email = Some ''ann@example.com''\<rparr>
   \<and> outbound (served (apiPipeline demo_verify ROUTE_MAPPINGS (initializeServices 0 SERVICES)
        (answering 200) (\<lambda>k. None) 0 token_request))
      = [Sent \<lparr>cfg_method = ''GET'', cfg_url = ''http://localhost:3000/api/products'', cfg_data = [],
               cfg_headers = outboundHeaders
                 (headers (withIdentity token_request \<lparr>uid = Some ''u42'', email = Some ''ann@example.com''\<rparr>)),
               cfg_timeout = 5000, cfg_maxRedirects = 5\<rparr>]
   \<and> outboundHeaders
        (headers (withIdentity token_request \<lparr>uid = Some ''u42'', email = Some ''ann@example.com''\<rparr>))
        ''x-user-id'' = Some ''u42''
   \<and> bearerIdentity demo_verify order_request = None
   \<and> outbound (served (apiPipeline demo_verify ROUTE_MAPPINGS (initializeServices 0 SERVICES)
        (answering 200) (\<lambda>k. None) 0 order_request)) = []
   \<and> headers noid_request ''x-user-id'' = Some ''admin''
   \<and> bearerIdentity demo_verify noid_request = Some \<lparr>uid = None, email = Some ''ann@example.com''\<rparr>
   \<and> outbound (served (apiPipeline demo_verify ROUTE_MAPPINGS (initializeServices 0 SERVICES)
        (answering 200) (\<lambda>k. None) 0 noid_request))
      = [Sent \<lparr>cfg_method = ''GET'', cfg_url = ''http://localhost:3000/api/products'', cfg_data = [],
               cfg_headers = outboundHeaders
                 (headers (withIdentity noid_request \<lparr>uid = None, email = Some ''ann@example.com''\<rparr>)),
               cfg_timeout = 5000, cfg_maxRedirects = 5\<rparr>]
   \<and> outboundHeaders
        (headers (withIdentity noid_request \<lparr>uid = None, email = Some ''ann@example.com''\<rparr>))
        ''x-user-id'' = None
   \<and> outboundHeaders
        (headers (withIdentity noid_request \<lparr>uid = None, email = Some ''ann@example.com''\<rparr>))
        ''x-user-email'' = Some ''ann@example.com''"
proof -
  let ?d = "\<lparr>uid = Some ''u42'', email = Some ''ann@example.com''\<rparr>"
  let ?c = "\<lparr>cfg_method = ''GET'', cfg_url = ''http://localhost:3000/api/products'', cfg_data = [],
               cfg_headers = outboundHeaders (headers (withIdentity token_request ?d)),
               cfg_timeout = 5000, cfg_maxRedirects = 5\<rparr>"
  have id: "bearerIdentity demo_verify token_request = Some ?d"
    by (simp add: bearerIdentity_def token_request_def demo_verify_def startsWith_def)
  have lim: "rejection (rateLimiter (\<lambda>k. None) 0 req) = None" for req
    by (simp add: rateLimiter_def rateLimit_max_def Let_def)
  have tp: "path token_request = ''/api/products''"
    by (simp add: token_request_def)
  have auth: "conditionalAuth demo_verify ROUTE_MAPPINGS token_request
                = Next (withIdentity token_request ?d)"
    by (simp add: conditionalAuth_def optionalAuth_identity id ROUTE_MAPPINGS_def startsWith_def tp)
  have p: "path (withIdentity token_request ?d) = ''/api/products''"
    "httpMethod (withIdentity token_request ?d) = ''GET''" "body (withIdentity token_request ?d) = []"
    by (simp_all add: withIdentity_def token_request_def)
  have out: "outbound (served (apiPipeline demo_verify ROUTE_MAPPINGS (initializeServices 0 SERVICES)
        (answering 200) (\<lambda>k. None) 0 token_request)) = [Sent ?c]"
    apply (simp only: apiPipeline_def Let_def lim auth Served.simps option.case handled.case)
    apply (simp only: products_forwarded [OF p(1)] p)
    done
  then have sent: "Sent ?c \<in> set (outbound (served (apiPipeline demo_verify ROUTE_MAPPINGS
        (initializeServices 0 SERVICES) (answering 200) (\<lambda>k. None) 0 token_request)))"
    by simp
  have hdr: "cfg_headers ?c ''x-user-id'' = Some ''u42''"
    using outbound_identity_headers [where c = ?c and verify = demo_verify and routes = ROUTE_MAPPINGS
        and reg = "initializeServices 0 SERVICES" and pw = "answering 200" and st = "\<lambda>k. None"
        and now = 0 and req = token_request and mapping = "ROUTE_MAPPINGS ! 1"] sent id
    by simp
  have none: "bearerIdentity demo_verify order_request = None"
    by (simp add: bearerIdentity_def order_request_def)
  have orders: "find (\<lambda>m. startsWith (path order_request) (prefix m)) ROUTE_MAPPINGS
                  = Some (ROUTE_MAPPINGS ! 2)" "authRequired (ROUTE_MAPPINGS ! 2)"
    by (simp_all add: ROUTE_MAPPINGS_def startsWith_def order_request_def)
  have rej: "outbound (served (apiPipeline demo_verify ROUTE_MAPPINGS (initializeServices 0 SERVICES)
        (answering 200) (\<lambda>k. None) 0 order_request)) = []"
    using outbound_identity_headers [where c = ?c and verify = demo_verify and routes = ROUTE_MAPPINGS
        and reg = "initializeServices 0 SERVICES" and pw = "answering 200" and st = "\<lambda>k. None"
        and now = 0 and req = order_request and mapping = "ROUTE_MAPPINGS ! 2"] none orders
    by blast
  let ?n = "\<lparr>uid = None, email = Some ''ann@example.com''\<rparr>"
  let ?cn = "\<lparr>cfg_method = ''GET'', cfg_url = ''http://localhost:3000/api/products'', cfg_data = [],
               cfg_headers = outboundHeaders (headers (withIdentity noid_request ?n)),
               cfg_timeout = 5000, cfg_maxRedirects = 5\<rparr>"
  have spoofed: "headers noid_request ''x-user-id'' = Some ''admin''"
    by (simp add: noid_request_def)
  have idn: "bearerIdentity demo_verify noid_request = Some ?n"
    by (simp add: bearerIdentity_def noid_request_def demo_verify_def startsWith_def)
  have np: "path noid_request = ''/api/products''"
    by (simp add: noid_request_def)
  have authn: "conditionalAuth demo_verify ROUTE_MAPPINGS noid_request
                = Next (withIdentity noid_request ?n)"
    by (simp add: conditionalAuth_def optionalAuth_identity idn ROUTE_MAPPINGS_def startsWith_def np)
  have pn: "path (withIdentity noid_request ?n) = ''/api/products''"
    "httpMethod (withIdentity noid_request ?n) = ''GET''" "body (withIdentity noid_request ?n) = []"
    by (simp_all add: withIdentity_def noid_request_def)
  have outn: "outbound (served (apiPipeline demo_verify ROUTE_MAPPINGS (initializeServices 0 SERVICES)
        (answering 200) (\<lambda>k. None) 0 noid_request)) = [Sent ?cn]"
    apply (simp only: apiPipeline_def Let_def lim authn Served.simps option.case handled.case)
    apply (simp only: products_forwarded [OF pn(1)] pn)
    done
  then have sentn: "Sent ?cn \<in> set (outbound (served (apiPipeline demo_verify ROUTE_MAPPINGS
        (initializeServices 0 SERVICES) (answering 200) (\<lambda>k. None) 0 noid_request)))"
    by simp
  have hdrn: "cfg_headers ?cn ''x-user-id'' = None \<and> cfg_headers ?cn ''x-user-email'' = Some ''ann@example.com''"
    using outbound_identity_headers [where c = ?cn and verify = demo_verify and routes = ROUTE_MAPPINGS
        and reg = "initializeServices 0 SERVICES" and pw = "answering 200" and st = "\<lambda>k. None"
        and now = 0 and req = noid_request and mapping = "ROUTE_MAPPINGS ! 1"] sentn idn
    by simp
  from id out hdr none rej spoofed idn outn hdrn show ?thesis by simp
qed

end
